theory Spec2Isabelle
  imports Complex_Main "HOL-Library.Sublist"
begin

section \<open>JavaScript values shared by the two Lightning web components\<close>

text \<open>
  The repository holds two components, \<^verbatim>\<open>availableProducts.js\<close> (the Product List
  View) and \<^verbatim>\<open>orderProducts.js\<close> (the Order Line View). Both extend
  \<^verbatim>\<open>NavigationMixin(LightningElement)\<close>, and both carry the same \<^verbatim>\<open>getErrorMessage\<close>,
  \<^verbatim>\<open>showToast\<close> and \<^verbatim>\<open>refreshCurrentRecordView\<close>.

  A JavaScript property that holds a string or is \<^verbatim>\<open>undefined\<close> is a \<open>string option\<close>
  (\<open>None\<close> is \<^verbatim>\<open>undefined\<close>). A string is the list of its characters, a character
  outside ASCII being its UTF-8 bytes. \<^verbatim>\<open>String.prototype.toLowerCase\<close> is the
  platform's Unicode mapping, which the repository does not contain: every definition
  that lowers a string takes the mapping as its argument \<open>toLowerCase\<close>, and what is
  proved holds for every mapping. \<open>asciiLowerCase\<close> is the mapping on ASCII strings,
  for concrete inputs. Where JavaScript reuses one property name on objects of
  different shape (\<^verbatim>\<open>message\<close>, \<^verbatim>\<open>recordId\<close>, \<^verbatim>\<open>productId\<close>), the field carries the
  shape as a prefix.
\<close>

definition truthy :: "string option \<Rightarrow> bool" where
  "truthy v = (case v of None \<Rightarrow> False | Some s \<Rightarrow> s \<noteq> [])"

definition text_of :: "string option \<Rightarrow> string" where
  "text_of v = (case v of None \<Rightarrow> [] | Some s \<Rightarrow> s)"

definition js_or :: "string option \<Rightarrow> string option \<Rightarrow> string option" where
  "js_or a b = (if truthy a then a else b)"

definition asciiLowerChar :: "char \<Rightarrow> char" where
  "asciiLowerChar c =
     (let n = (of_char c :: nat) in if 65 \<le> n \<and> n \<le> 90 then char_of (n + 32) else c)"

definition asciiLowerCase :: "string \<Rightarrow> string" where
  "asciiLowerCase s = map asciiLowerChar s"

definition js_includes :: "string \<Rightarrow> string \<Rightarrow> bool" where
  "js_includes hay needle = sublist needle hay"

fun jsSlice :: "'a list \<Rightarrow> int \<Rightarrow> int \<Rightarrow> 'a list" where
  "jsSlice xs start fin =
     (let len = int (length xs);
          k = (if start < 0 then max (len + start) 0 else min start len);
          final = (if fin < 0 then max (len + fin) 0 else min fin len)
      in take (nat (final - k)) (drop (nat k) xs))"

subsection \<open>Values of any type, and errors caught at a call site\<close>

text \<open>
  What a \<^verbatim>\<open>catch\<close> receives, and what an error's \<^verbatim>\<open>body\<close> and \<^verbatim>\<open>message\<close> hold,
  can be any JavaScript value. An object is the list of its properties; reading a
  property of an object runs no code. A number is a real or \<^verbatim>\<open>NaN\<close> (an infinity
  is tested and read as any number other than 0 is; a symbol, a function and a big
  integer are tested and read as one of the values here).
\<close>

datatype js_value =
    JUndefined
  | JNull
  | JBool bool
  | JNumber real
  | JNaN
  | JString string
  | JObject "(string \<times> js_value) list"

fun js_truthy :: "js_value \<Rightarrow> bool" where
  "js_truthy JUndefined = False"
| "js_truthy JNull = False"
| "js_truthy (JBool b) = b"
| "js_truthy (JNumber n) = (n \<noteq> 0)"
| "js_truthy JNaN = False"
| "js_truthy (JString s) = (s \<noteq> [])"
| "js_truthy (JObject ps) = True"

fun isString :: "js_value \<Rightarrow> bool" where
  "isString (JString s) = True"
| "isString v = False"

definition optional :: "string option \<Rightarrow> js_value" where
  "optional v = (case v of None \<Rightarrow> JUndefined | Some s \<Rightarrow> JString s)"

text \<open>
  Reading a property throws a TypeError on \<^verbatim>\<open>undefined\<close> and \<^verbatim>\<open>null\<close>, gives the
  property's value on an object that has it, and \<^verbatim>\<open>undefined\<close> otherwise (the
  prototypes of booleans, numbers and strings have no \<^verbatim>\<open>body\<close> and no \<^verbatim>\<open>message\<close>).
\<close>

datatype js_exception = TypeError string

fun getProp :: "js_value \<Rightarrow> string \<Rightarrow> js_exception + js_value" where
  "getProp JUndefined name = Inl (TypeError ''Cannot read properties of undefined'')"
| "getProp JNull name = Inl (TypeError ''Cannot read properties of null'')"
| "getProp (JObject ps) name = Inr (case map_of ps name of None \<Rightarrow> JUndefined | Some v \<Rightarrow> v)"
| "getProp v name = Inr JUndefined"

definition js_bind ::
  "js_exception + 'a \<Rightarrow> ('a \<Rightarrow> js_exception + 'b) \<Rightarrow> js_exception + 'b" where
  "js_bind r k = (case r of Inl x \<Rightarrow> Inl x | Inr v \<Rightarrow> k v)"

definition getErrorMessage :: "js_value \<Rightarrow> js_exception + js_value" where
  "getErrorMessage e =
     (if \<not> js_truthy e then Inr (JString ''Unknown error occurred'')
      else
        js_bind (getProp e ''body'') (\<lambda>body.
        js_bind (if js_truthy body then getProp body ''message'' else Inr body) (\<lambda>bodyMessage.
          if js_truthy bodyMessage then getProp body ''message''
          else
            js_bind (getProp e ''message'') (\<lambda>message.
              if js_truthy message then getProp e ''message''
              else if isString e then Inr e
              else Inr (JString ''An error occurred. Please contact your administrator.'')))))"

text \<open>Reading \<^verbatim>\<open>result.success\<close> of a \<^verbatim>\<open>null\<close> result raises a TypeError, which the
  surrounding \<^verbatim>\<open>catch\<close> receives as an object with the engine's message.\<close>

definition nullResultError :: js_value where
  "nullResultError = JObject [(''message'', JString ''Cannot read properties of null'')]"

subsection \<open>Remote calls, notifications and timers\<close>

datatype 'a apex = Rejected js_value | Resolved 'a

record apex_result =
  res_success :: bool
  res_message :: "string option"
  res_recordId :: "string option"

datatype toast =
  ShowToastEvent (toast_title: string) (toast_message: js_value)
    (toast_variant: string) (toast_mode: string)

datatype timer_action = RefreshOrderProducts | RefreshCurrentRecordView

record product_added_message =
  msg_productId :: "string option"
  msg_orderItemId :: "string option"
  msg_orderId :: "string option"

record product_row =
  productId :: "string option"
  productCode :: "string option"
  productName :: "string option"
  category :: "string option"
  brand :: "string option"
  isExternal :: bool
  isAddedToOrder :: bool
  statusLabel :: "string option"
  statusClass :: "string option"
  rowClass :: "string option"
  sourceIcon :: "string option"
  sourceBadgeClass :: "string option"
  disableAdd :: bool

record order_item =
  orderItemId :: "string option"
  item_productName :: "string option"
  item_productCode :: "string option"
  unitPrice :: real
  quantity :: real
  totalPrice :: real
  removeDisabled :: bool

datatype apex_call =
    GetCombinedProducts "string option" bool
  | AddProductToOrder "string option" "string option"
  | AddExternalProductToOrder "string option" product_row
  | IsOrderActivated "string option"
  | ActivateOrder "string option"
  | RemoveOrderItem "string option"
  | RefreshApex

text \<open>
  The state both components share. Besides the class fields it records what an
  operation did to the outside: the toasts dispatched, the remote calls issued, the
  timers set with \<^verbatim>\<open>setTimeout\<close> (delay in milliseconds) and the navigations to the
  record page, each oldest first.
\<close>

record component =
  recordId :: "string option"
  isLoading :: bool
  isActivated :: bool
  error :: js_value
  toasts :: "toast list"
  apexCalls :: "apex_call list"
  timers :: "(nat \<times> timer_action) list"
  navigations :: "string option list"

definition showToast ::
  "string \<Rightarrow> js_value \<Rightarrow> string \<Rightarrow> 'a component_scheme \<Rightarrow> 'a component_scheme" where
  "showToast title message variant s =
     s\<lparr>toasts := toasts s @
        [ShowToastEvent title message variant
           (if variant = ''error'' then ''sticky'' else ''dismissable'')]\<rparr>"

text \<open>
  \<^verbatim>\<open>this.showToast(title, this.getErrorMessage(error), 'error')\<close> in a \<^verbatim>\<open>catch\<close>
  block: were \<^verbatim>\<open>getErrorMessage\<close> to throw, no toast would be dispatched.
\<close>

definition showErrorToast :: "string \<Rightarrow> js_value \<Rightarrow> 'a component_scheme \<Rightarrow> 'a component_scheme" where
  "showErrorToast title e s =
     (case getErrorMessage e of
        Inr message \<Rightarrow> showToast title message ''error'' s
      | Inl x \<Rightarrow> s)"

definition refreshCurrentRecordView :: "'a component_scheme \<Rightarrow> 'a component_scheme" where
  "refreshCurrentRecordView s = s\<lparr>navigations := navigations s @ [recordId s]\<rparr>"

definition callApex :: "apex_call \<Rightarrow> 'a component_scheme \<Rightarrow> 'a component_scheme" where
  "callApex c s = s\<lparr>apexCalls := apexCalls s @ [c]\<rparr>"

definition setTimeout ::
  "timer_action \<Rightarrow> nat \<Rightarrow> 'a component_scheme \<Rightarrow> 'a component_scheme" where
  "setTimeout a ms s = s\<lparr>timers := timers s @ [(ms, a)]\<rparr>"

section \<open>The Order Line View (orderProducts.js)\<close>

text \<open>
  An \<^verbatim>\<open>async\<close> handler is one function of the state it starts in and of the answer of
  every remote call it awaits: it runs from its first statement to its last, the
  answers being arguments. What the platform delivers to the wired function
  \<^verbatim>\<open>wiredOrderItems\<close> is an argument as well. (Where another handler can run
  while one is suspended matters for the page number of the Product List View only;
  its handlers are given in segments as well, further down.)
\<close>

record wire_result =
  wire_data :: "order_item list option"
  wire_error :: js_value

record orderProducts = component +
  orderItems :: "order_item list"
  isActivating :: bool
  wiredOrderItemsResult :: "wire_result option"
  subscription :: bool
  pageReloads :: nat

definition decorateRows :: "orderProducts \<Rightarrow> order_item list \<Rightarrow> order_item list" where
  "decorateRows s data = map (\<lambda>item. item\<lparr>removeDisabled := isActivated s\<rparr>) data"

definition hasOrderItems :: "orderProducts \<Rightarrow> bool" where
  "hasOrderItems s = (length (orderItems s) > 0)"

definition subscribeToMessageChannel :: "orderProducts \<Rightarrow> orderProducts" where
  "subscribeToMessageChannel s = (if subscription s then s else s\<lparr>subscription := True\<rparr>)"

definition disconnectedCallback :: "orderProducts \<Rightarrow> orderProducts" where
  "disconnectedCallback s = (if subscription s then s\<lparr>subscription := False\<rparr> else s)"

definition handleProductAddedMessage ::
  "product_added_message option \<Rightarrow> orderProducts \<Rightarrow> orderProducts" where
  "handleProductAddedMessage message s =
     (case message of
        None \<Rightarrow> s
      | Some m \<Rightarrow>
          if msg_orderId m = recordId s
          then setTimeout RefreshCurrentRecordView 400 (setTimeout RefreshOrderProducts 0 s)
          else s)"

definition wiredOrderItems :: "wire_result \<Rightarrow> orderProducts \<Rightarrow> orderProducts" where
  "wiredOrderItems result s =
     (let s1 = s\<lparr>wiredOrderItemsResult := Some result\<rparr> in
      case wire_data result of
        Some data \<Rightarrow> s1\<lparr>orderItems := decorateRows s1 data, error := JUndefined\<rparr>
      | None \<Rightarrow>
          if js_truthy (wire_error result)
          then (case getErrorMessage (wire_error result) of
                  Inr message \<Rightarrow>
                    showToast ''Error loading order products'' message ''error''
                      (s1\<lparr>error := message, orderItems := []\<rparr>)
                | Inl x \<Rightarrow> s1)
          else s1)"

definition checkOrderActivationStatus :: "bool apex \<Rightarrow> orderProducts \<Rightarrow> orderProducts" where
  "checkOrderActivationStatus answer s =
     (if \<not> truthy (recordId s) then s
      else
        let s1 = callApex (IsOrderActivated (recordId s)) s in
        case answer of
          Resolved activated \<Rightarrow>
            (let s2 = s1\<lparr>isActivated := activated\<rparr> in
             if length (orderItems s2) \<noteq> 0
             then s2\<lparr>orderItems := decorateRows s2 (orderItems s2)\<rparr>
             else s2)
        | Rejected e \<Rightarrow> s1)"

text \<open>
  \<^verbatim>\<open>refreshOrderProducts\<close> starts \<^verbatim>\<open>refreshApex\<close> and returns; when the refresh settles
  (with a new delivery to \<^verbatim>\<open>wiredOrderItems\<close>, with none, or rejected) the rows are
  decorated again and the spinner is cleared.
\<close>

definition refreshOrderProducts_begin :: "orderProducts \<Rightarrow> orderProducts" where
  "refreshOrderProducts_begin s =
     (if wiredOrderItemsResult s \<noteq> None then callApex RefreshApex (s\<lparr>isLoading := True\<rparr>) else s)"

definition refreshOrderProducts_settle ::
  "wire_result option apex \<Rightarrow> orderProducts \<Rightarrow> orderProducts" where
  "refreshOrderProducts_settle settled s =
     (case settled of
        Rejected e \<Rightarrow> s\<lparr>isLoading := False\<rparr>
      | Resolved delivery \<Rightarrow>
          (let s1 = (case delivery of None \<Rightarrow> s | Some r \<Rightarrow> wiredOrderItems r s);
               s2 = (if length (orderItems s1) \<noteq> 0
                     then s1\<lparr>orderItems := decorateRows s1 (orderItems s1)\<rparr> else s1)
           in s2\<lparr>isLoading := False\<rparr>))"

definition refreshOrderProducts ::
  "wire_result option apex \<Rightarrow> orderProducts \<Rightarrow> orderProducts" where
  "refreshOrderProducts settled s =
     (if wiredOrderItemsResult s \<noteq> None
      then refreshOrderProducts_settle settled (refreshOrderProducts_begin s)
      else s)"

definition refreshPage :: "orderProducts \<Rightarrow> orderProducts" where
  "refreshPage s = s\<lparr>pageReloads := pageReloads s + 1\<rparr>"

definition handleActivateOrder ::
  "apex_result option apex \<Rightarrow> orderProducts \<Rightarrow> orderProducts" where
  "handleActivateOrder answer s =
     (if \<not> truthy (recordId s) then showToast ''Error'' (JString ''Order ID is missing'') ''error'' s
      else if isActivated s
      then showToast ''Warning'' (JString ''Order is already activated'') ''warning'' s
      else if \<not> hasOrderItems s
      then showToast ''Error'' (JString ''Cannot activate order without products'') ''error'' s
      else
        let s1 = callApex (ActivateOrder (recordId s)) (s\<lparr>isActivating := True\<rparr>);
            s2 = (case answer of
                    Resolved (Some result) \<Rightarrow>
                      if res_success result
                      then refreshPage
                             ((showToast ''Success'' (optional (res_message result)) ''success'' s1)
                                \<lparr>isActivated := True\<rparr>)
                      else showToast ''Activation Failed'' (optional (res_message result)) ''error'' s1
                  | Resolved None \<Rightarrow> showErrorToast ''Error activating order'' nullResultError s1
                  | Rejected e \<Rightarrow> showErrorToast ''Error activating order'' e s1)
        in s2\<lparr>isActivating := False\<rparr>)"

definition handleRowAction_order ::
  "string \<Rightarrow> order_item \<Rightarrow> apex_result option apex \<Rightarrow> wire_result option apex \<Rightarrow>
     orderProducts \<Rightarrow> orderProducts" where
  "handleRowAction_order actionName row answer settled s =
     (if actionName = ''remove''
      then
        if isActivated s
        then showToast ''Warning'' (JString ''Cannot remove products from an activated order'')
               ''warning'' s
        else
          let s1 = callApex (RemoveOrderItem (orderItemId row)) (s\<lparr>isLoading := True\<rparr>) in
          case answer of
            Resolved (Some res) \<Rightarrow>
              if res_success res
              then
                (let s2 = showToast ''Success'' (optional (res_message res)) ''success'' s1;
                     s3 = refreshCurrentRecordView (refreshOrderProducts_begin s2);
                     s4 = s3\<lparr>isLoading := False\<rparr>
                 in if wiredOrderItemsResult s2 \<noteq> None
                    then refreshOrderProducts_settle settled s4 else s4)
              else (showToast ''Error'' (optional (res_message res)) ''error'' s1)\<lparr>isLoading := False\<rparr>
          | Resolved None \<Rightarrow>
              (showToast ''Error'' (JString ''Unable to remove product'') ''error'' s1)
                \<lparr>isLoading := False\<rparr>
          | Rejected e \<Rightarrow>
              (showErrorToast ''Error removing product'' e s1)\<lparr>isLoading := False\<rparr>
      else s)"

text \<open>The operations of the Order Line View, and a session as a list of them.\<close>

datatype order_op =
    CheckOrderActivationStatus "bool apex"
  | SubscribeToMessageChannel
  | DisconnectedCallback
  | WiredOrderItems wire_result
  | HandleProductAddedMessage "product_added_message option"
  | RefreshOrderProductsOp "wire_result option apex"
  | RefreshCurrentRecordViewOp
  | HandleActivateOrder "apex_result option apex"
  | HandleRowActionOrder string order_item "apex_result option apex" "wire_result option apex"

fun order_step :: "order_op \<Rightarrow> orderProducts \<Rightarrow> orderProducts" where
  "order_step (CheckOrderActivationStatus a) s = checkOrderActivationStatus a s"
| "order_step SubscribeToMessageChannel s = subscribeToMessageChannel s"
| "order_step DisconnectedCallback s = disconnectedCallback s"
| "order_step (WiredOrderItems r) s = wiredOrderItems r s"
| "order_step (HandleProductAddedMessage m) s = handleProductAddedMessage m s"
| "order_step (RefreshOrderProductsOp d) s = refreshOrderProducts d s"
| "order_step RefreshCurrentRecordViewOp s = refreshCurrentRecordView s"
| "order_step (HandleActivateOrder a) s = handleActivateOrder a s"
| "order_step (HandleRowActionOrder n row a d) s = handleRowAction_order n row a d s"

fun order_run :: "order_op list \<Rightarrow> orderProducts \<Rightarrow> orderProducts" where
  "order_run [] s = s"
| "order_run (x # xs) s = order_run xs (order_step x s)"

definition orderProducts_init :: "string option \<Rightarrow> orderProducts" where
  "orderProducts_init rid =
     \<lparr>recordId = rid, isLoading = False, isActivated = False, error = JUndefined, toasts = [],
      apexCalls = [], timers = [], navigations = [], orderItems = [], isActivating = False,
      wiredOrderItemsResult = None, subscription = False, pageReloads = 0\<rparr>"
section \<open>The Product List View (availableProducts.js)\<close>

record availableProducts = component +
  products :: "product_row list"
  filteredProducts :: "product_row list"
  searchTerm :: string
  includeExternal :: bool
  sfCount :: nat
  apiCount :: nat
  totalCount :: nat
  showStats :: bool
  pageSize :: int
  currentPage :: int
  published :: "product_added_message list"

definition availableProducts_init :: "string option \<Rightarrow> availableProducts" where
  "availableProducts_init rid =
     \<lparr>recordId = rid, isLoading = False, isActivated = False, error = JUndefined, toasts = [],
      apexCalls = [], timers = [], navigations = [], products = [], filteredProducts = [],
      searchTerm = [], includeExternal = True, sfCount = 0, apiCount = 0, totalCount = 0,
      showStats = False, pageSize = 10, currentPage = 1, published = []\<rparr>"

subsection \<open>Pagination getters\<close>

text \<open>
  \<^verbatim>\<open>Math.ceil(length / pageSize)\<close> is taken over the reals; the source's double
  arithmetic gives the same integer for every array length and every positive
  page size. (The source never assigns \<^verbatim>\<open>pageSize\<close> after its initial 10.)
\<close>

definition totalPages :: "availableProducts \<Rightarrow> int" where
  "totalPages s =
     (if length (filteredProducts s) \<noteq> 0
      then \<lceil>real (length (filteredProducts s)) / real_of_int (pageSize s)\<rceil>
      else 1)"

definition pagedProducts :: "availableProducts \<Rightarrow> product_row list" where
  "pagedProducts s =
     (let start = (currentPage s - 1) * pageSize s;
          fin = start + pageSize s
      in jsSlice (filteredProducts s) start fin)"

definition isFirstPage :: "availableProducts \<Rightarrow> bool" where
  "isFirstPage s = (currentPage s = 1)"

definition isLastPage :: "availableProducts \<Rightarrow> bool" where
  "isLastPage s = (currentPage s \<ge> totalPages s)"

definition handleNextPage :: "availableProducts \<Rightarrow> availableProducts" where
  "handleNextPage s = (if \<not> isLastPage s then s\<lparr>currentPage := currentPage s + 1\<rparr> else s)"

definition handlePrevPage :: "availableProducts \<Rightarrow> availableProducts" where
  "handlePrevPage s = (if \<not> isFirstPage s then s\<lparr>currentPage := currentPage s - 1\<rparr> else s)"

subsection \<open>Filtering\<close>

definition fieldMatch :: "(string \<Rightarrow> string) \<Rightarrow> string option \<Rightarrow> string \<Rightarrow> bool" where
  "fieldMatch toLowerCase field term =
     (truthy field \<and> js_includes (toLowerCase (text_of field)) term)"

definition rowMatch :: "(string \<Rightarrow> string) \<Rightarrow> string \<Rightarrow> product_row \<Rightarrow> bool" where
  "rowMatch toLowerCase term product =
     (fieldMatch toLowerCase (productName product) term \<or>
      fieldMatch toLowerCase (productCode product) term \<or>
      fieldMatch toLowerCase (category product) term \<or>
      fieldMatch toLowerCase (brand product) term)"

definition applyFilters :: "(string \<Rightarrow> string) \<Rightarrow> availableProducts \<Rightarrow> availableProducts" where
  "applyFilters toLowerCase s =
     (let filtered = products s;
          filtered = (if searchTerm s \<noteq> []
                      then filter (rowMatch toLowerCase (searchTerm s)) filtered
                      else filtered)
      in s\<lparr>filteredProducts := filtered, currentPage := 1\<rparr>)"

definition handleSearch ::
  "(string \<Rightarrow> string) \<Rightarrow> string \<Rightarrow> availableProducts \<Rightarrow> availableProducts" where
  "handleSearch toLowerCase v s = applyFilters toLowerCase (s\<lparr>searchTerm := toLowerCase v\<rparr>)"

subsection \<open>Loading the catalog\<close>

definition transformProductData :: "availableProducts \<Rightarrow> product_row list \<Rightarrow> product_row list" where
  "transformProductData s data =
     map (\<lambda>product. product
            \<lparr>sourceIcon := Some (if isExternal product then ''utility:world''
                                 else ''utility:salesforce1''),
             sourceBadgeClass := Some (if isExternal product then ''slds-badge slds-theme_warning''
                                       else ''slds-badge slds-theme_success''),
             disableAdd := isActivated s\<rparr>) data"

definition recount :: "availableProducts \<Rightarrow> availableProducts" where
  "recount s =
     s\<lparr>sfCount := length (filter (\<lambda>p. \<not> isExternal p) (products s)),
       apiCount := length (filter (\<lambda>p. isExternal p) (products s)),
       totalCount := length (products s),
       showStats := True\<rparr>"

text \<open>
  \<open>recount\<close> is the statistics block that \<^verbatim>\<open>loadProducts\<close> and \<^verbatim>\<open>markProductAsAdded\<close>
  both contain; \<^verbatim>\<open>showStats\<close> is set to false and, one microtask later, to true, which
  is the value the operation ends with. A \<^verbatim>\<open>null\<close> answer makes \<^verbatim>\<open>data.map\<close> raise into
  the \<^verbatim>\<open>catch\<close> branch. The \<^verbatim>\<open>catch\<close> branch empties both collections and does not
  touch \<^verbatim>\<open>currentPage\<close>.
\<close>

definition loadProducts_failed :: "js_value \<Rightarrow> availableProducts \<Rightarrow> availableProducts" where
  "loadProducts_failed e s =
     (case getErrorMessage e of
        Inr message \<Rightarrow>
          showToast ''Error loading products'' message ''error''
            (s\<lparr>error := message, products := [], filteredProducts := []\<rparr>)
      | Inl x \<Rightarrow> s)"

definition loadProducts ::
  "(string \<Rightarrow> string) \<Rightarrow> product_row list option apex \<Rightarrow> availableProducts \<Rightarrow>
     availableProducts" where
  "loadProducts toLowerCase answer s =
     (let s1 = callApex (GetCombinedProducts (recordId s) (includeExternal s))
                 (s\<lparr>isLoading := True, error := JUndefined, currentPage := 1\<rparr>);
          s2 = (case answer of
                  Resolved (Some data) \<Rightarrow>
                    applyFilters toLowerCase
                      (recount (s1\<lparr>products := transformProductData s1 data\<rparr>))
                | Resolved None \<Rightarrow> loadProducts_failed nullResultError s1
                | Rejected e \<Rightarrow> loadProducts_failed e s1)
      in s2\<lparr>isLoading := False\<rparr>)"

definition handleToggleExternal ::
  "(string \<Rightarrow> string) \<Rightarrow> bool \<Rightarrow> product_row list option apex \<Rightarrow> availableProducts \<Rightarrow>
     availableProducts" where
  "handleToggleExternal toLowerCase checked answer s =
     loadProducts toLowerCase answer (s\<lparr>includeExternal := checked\<rparr>)"

definition checkActivation :: "bool apex \<Rightarrow> availableProducts \<Rightarrow> availableProducts" where
  "checkActivation answer s =
     (if \<not> truthy (recordId s) then s
      else
        let s1 = callApex (IsOrderActivated (recordId s)) s in
        case answer of
          Resolved activated \<Rightarrow>
            (let s2 = s1\<lparr>isActivated := activated\<rparr> in
             if length (products s2) \<noteq> 0
             then s2\<lparr>products := map (\<lambda>p. p\<lparr>disableAdd := isActivated s2\<rparr>) (products s2),
                     filteredProducts :=
                       map (\<lambda>p. p\<lparr>disableAdd := isActivated s2\<rparr>) (filteredProducts s2)\<rparr>
             else s2)
        | Rejected e \<Rightarrow> s1)"

subsection \<open>Adding a product to the order\<close>

definition addedLabel :: string where
  "addedLabel = [CHR 0xE2, CHR 0x9C, CHR 0x93] @ '' Added''"

definition markRow :: "string option \<Rightarrow> product_row \<Rightarrow> product_row" where
  "markRow pid p =
     (if productId p = pid
      then p\<lparr>isAddedToOrder := True, statusLabel := Some addedLabel,
             statusClass := Some ''slds-text-color_success'',
             rowClass := Some ''slds-hint-parent slds-is-selected'',
             disableAdd := True\<rparr>
      else p)"

definition markProductAsAdded :: "string option \<Rightarrow> availableProducts \<Rightarrow> availableProducts" where
  "markProductAsAdded pid s =
     recount (s\<lparr>products := map (markRow pid) (products s),
                filteredProducts := map (markRow pid) (filteredProducts s)\<rparr>)"

definition dispatchProductAddedEvent ::
  "string option \<Rightarrow> string option \<Rightarrow> availableProducts \<Rightarrow> availableProducts" where
  "dispatchProductAddedEvent pid itemId s =
     s\<lparr>published := published s @
        [\<lparr>msg_productId = pid, msg_orderItemId = itemId, msg_orderId = recordId s\<rparr>]\<rparr>"

definition handleAddProduct ::
  "(string \<Rightarrow> string) \<Rightarrow> string option \<Rightarrow> apex_result option apex \<Rightarrow>
     product_row list option apex \<Rightarrow> availableProducts \<Rightarrow> availableProducts" where
  "handleAddProduct toLowerCase pid answer reload s =
     (if \<not> truthy pid \<or> \<not> truthy (recordId s)
      then showToast ''Error'' (JString ''Missing product or order information'') ''error'' s
      else
        let s1 = callApex (AddProductToOrder (recordId s) pid) (s\<lparr>isLoading := True\<rparr>);
            s2 = (case answer of
                    Resolved (Some result) \<Rightarrow>
                      if res_success result
                      then
                        (let a = loadProducts toLowerCase reload s1;
                             b = markProductAsAdded pid a;
                             c = dispatchProductAddedEvent pid (res_recordId result) b;
                             d = showToast ''Success'' (optional (res_message result)) ''success'' c
                         in setTimeout RefreshCurrentRecordView 500 d)
                      else showToast ''Error'' (optional (res_message result)) ''error'' s1
                  | Resolved None \<Rightarrow> showErrorToast ''Error adding product'' nullResultError s1
                  | Rejected e \<Rightarrow> showErrorToast ''Error adding product'' e s1)
        in s2\<lparr>isLoading := False\<rparr>)"

definition handleAddExternalProduct ::
  "(string \<Rightarrow> string) \<Rightarrow> product_row option \<Rightarrow> apex_result option apex \<Rightarrow>
     product_row list option apex \<Rightarrow> availableProducts \<Rightarrow> availableProducts" where
  "handleAddExternalProduct toLowerCase product answer reload s =
     (case product of
        None \<Rightarrow>
          showToast ''Error'' (JString ''Missing order or product information'') ''error'' s
      | Some row \<Rightarrow>
          if \<not> truthy (recordId s)
          then showToast ''Error'' (JString ''Missing order or product information'') ''error'' s
          else
            let s1 = callApex (AddExternalProductToOrder (recordId s) row) (s\<lparr>isLoading := True\<rparr>);
                s2 = (case answer of
                        Resolved (Some result) \<Rightarrow>
                          if res_success result
                          then
                            (let a = markProductAsAdded (js_or (productId row) (productCode row)) s1;
                                 b = loadProducts toLowerCase reload a;
                                 c = dispatchProductAddedEvent
                                       (js_or (productId row) (productCode row))
                                       (res_recordId result) b;
                                 d = showToast ''Success'' (optional (res_message result))
                                       ''success'' c
                             in setTimeout RefreshCurrentRecordView 500 d)
                          else showToast ''Error'' (optional (res_message result)) ''error'' s1
                      | Resolved None \<Rightarrow>
                          showToast ''Error'' (JString ''Failed to add external product'')
                            ''error'' s1
                      | Rejected e \<Rightarrow> showErrorToast ''Error adding external product'' e s1)
            in s2\<lparr>isLoading := False\<rparr>)"

definition handleRowAction ::
  "(string \<Rightarrow> string) \<Rightarrow> string \<Rightarrow> product_row \<Rightarrow> apex_result option apex \<Rightarrow>
     product_row list option apex \<Rightarrow> availableProducts \<Rightarrow> availableProducts" where
  "handleRowAction toLowerCase actionName row answer reload s =
     (if actionName = ''add_product''
      then
        if isExternal row then handleAddExternalProduct toLowerCase (Some row) answer reload s
        else handleAddProduct toLowerCase (productId row) answer reload s
      else s)"

text \<open>
  The operations of the Product List View, each handler run from its first statement
  to its last with no other handler in between, and a session as a list of them.
\<close>

datatype product_op =
    LoadProducts "product_row list option apex"
  | CheckActivation "bool apex"
  | HandleSearch string
  | HandleToggleExternal bool "product_row list option apex"
  | HandleRowAction string product_row "apex_result option apex" "product_row list option apex"
  | HandleAddProduct "string option" "apex_result option apex" "product_row list option apex"
  | HandleAddExternalProduct "product_row option" "apex_result option apex"
      "product_row list option apex"
  | ApplyFilters
  | HandleNextPage
  | HandlePrevPage
  | RefreshCurrentRecordViewP

fun product_step ::
  "(string \<Rightarrow> string) \<Rightarrow> product_op \<Rightarrow> availableProducts \<Rightarrow> availableProducts" where
  "product_step lc (LoadProducts a) s = loadProducts lc a s"
| "product_step lc (CheckActivation a) s = checkActivation a s"
| "product_step lc (HandleSearch v) s = handleSearch lc v s"
| "product_step lc (HandleToggleExternal c a) s = handleToggleExternal lc c a s"
| "product_step lc (HandleRowAction n row a r) s = handleRowAction lc n row a r s"
| "product_step lc (HandleAddProduct pid a r) s = handleAddProduct lc pid a r s"
| "product_step lc (HandleAddExternalProduct p a r) s = handleAddExternalProduct lc p a r s"
| "product_step lc ApplyFilters s = applyFilters lc s"
| "product_step lc HandleNextPage s = handleNextPage s"
| "product_step lc HandlePrevPage s = handlePrevPage s"
| "product_step lc RefreshCurrentRecordViewP s = refreshCurrentRecordView s"

fun product_run ::
  "(string \<Rightarrow> string) \<Rightarrow> product_op list \<Rightarrow> availableProducts \<Rightarrow> availableProducts" where
  "product_run lc [] s = s"
| "product_run lc (x # xs) s = product_run lc xs (product_step lc x s)"

subsection \<open>The handlers in segments, and the event loop\<close>

text \<open>
  An \<^verbatim>\<open>async\<close> handler runs up to its first \<^verbatim>\<open>await\<close> and is suspended there; any
  other handler can run before the awaited call settles and the handler goes on.
  Each handler that awaits is therefore given once more, cut at its awaits: the
  segment up to the call, and the segment from the settled call on. A suspended
  handler is a continuation, which keeps the local variables the rest of the handler
  reads. What follows \<^verbatim>\<open>await this.loadProducts()\<close> in the two add handlers runs in
  the microtasks right after \<^verbatim>\<open>loadProducts\<close> has ended, before any other event, and
  is part of the segment that settles the load. \<open>handlers_in_segments\<close> below shows
  that the segments, run one after the other, are the handlers above.
\<close>

datatype continuation =
    LoadProductsK
  | CheckActivationK
  | HandleAddProductK "string option"
  | HandleAddProductReloadK "string option" apex_result
  | HandleAddExternalProductK product_row
  | HandleAddExternalProductReloadK product_row apex_result

datatype answer =
    Catalog "product_row list option apex"
  | AddResult "apex_result option apex"
  | Activated "bool apex"

definition loadProducts_begin :: "availableProducts \<Rightarrow> availableProducts" where
  "loadProducts_begin s =
     callApex (GetCombinedProducts (recordId s) (includeExternal s))
       (s\<lparr>isLoading := True, error := JUndefined, currentPage := 1\<rparr>)"

definition loadProducts_settle ::
  "(string \<Rightarrow> string) \<Rightarrow> product_row list option apex \<Rightarrow> availableProducts \<Rightarrow>
     availableProducts" where
  "loadProducts_settle toLowerCase answer s =
     (case answer of
        Resolved (Some data) \<Rightarrow>
          applyFilters toLowerCase (recount (s\<lparr>products := transformProductData s data\<rparr>))
      | Resolved None \<Rightarrow> loadProducts_failed nullResultError s
      | Rejected e \<Rightarrow> loadProducts_failed e s)
     \<lparr>isLoading := False\<rparr>"

definition checkActivation_begin ::
  "availableProducts \<Rightarrow> availableProducts \<times> continuation list" where
  "checkActivation_begin s =
     (if \<not> truthy (recordId s) then (s, [])
      else (callApex (IsOrderActivated (recordId s)) s, [CheckActivationK]))"

definition checkActivation_settle :: "bool apex \<Rightarrow> availableProducts \<Rightarrow> availableProducts" where
  "checkActivation_settle answer s =
     (case answer of
        Resolved activated \<Rightarrow>
          (let s2 = s\<lparr>isActivated := activated\<rparr> in
           if length (products s2) \<noteq> 0
           then s2\<lparr>products := map (\<lambda>p. p\<lparr>disableAdd := isActivated s2\<rparr>) (products s2),
                   filteredProducts :=
                     map (\<lambda>p. p\<lparr>disableAdd := isActivated s2\<rparr>) (filteredProducts s2)\<rparr>
           else s2)
      | Rejected e \<Rightarrow> s)"

definition handleAddProduct_begin ::
  "string option \<Rightarrow> availableProducts \<Rightarrow> availableProducts \<times> continuation list" where
  "handleAddProduct_begin pid s =
     (if \<not> truthy pid \<or> \<not> truthy (recordId s)
      then (showToast ''Error'' (JString ''Missing product or order information'') ''error'' s, [])
      else (callApex (AddProductToOrder (recordId s) pid) (s\<lparr>isLoading := True\<rparr>),
            [HandleAddProductK pid]))"

definition handleAddProduct_answered ::
  "string option \<Rightarrow> apex_result option apex \<Rightarrow> availableProducts \<Rightarrow>
     availableProducts \<times> continuation list" where
  "handleAddProduct_answered pid answer s =
     (case answer of
        Resolved (Some result) \<Rightarrow>
          if res_success result
          then (loadProducts_begin s, [HandleAddProductReloadK pid result])
          else ((showToast ''Error'' (optional (res_message result)) ''error'' s)
                  \<lparr>isLoading := False\<rparr>, [])
      | Resolved None \<Rightarrow>
          ((showErrorToast ''Error adding product'' nullResultError s)\<lparr>isLoading := False\<rparr>, [])
      | Rejected e \<Rightarrow>
          ((showErrorToast ''Error adding product'' e s)\<lparr>isLoading := False\<rparr>, []))"

definition handleAddProduct_reloaded ::
  "(string \<Rightarrow> string) \<Rightarrow> string option \<Rightarrow> apex_result \<Rightarrow> product_row list option apex \<Rightarrow>
     availableProducts \<Rightarrow> availableProducts" where
  "handleAddProduct_reloaded toLowerCase pid result reload s =
     (let a = loadProducts_settle toLowerCase reload s;
          b = markProductAsAdded pid a;
          c = dispatchProductAddedEvent pid (res_recordId result) b;
          d = showToast ''Success'' (optional (res_message result)) ''success'' c
      in (setTimeout RefreshCurrentRecordView 500 d)\<lparr>isLoading := False\<rparr>)"

definition handleAddExternalProduct_begin ::
  "product_row option \<Rightarrow> availableProducts \<Rightarrow> availableProducts \<times> continuation list" where
  "handleAddExternalProduct_begin product s =
     (case product of
        None \<Rightarrow>
          (showToast ''Error'' (JString ''Missing order or product information'') ''error'' s, [])
      | Some row \<Rightarrow>
          if \<not> truthy (recordId s)
          then (showToast ''Error'' (JString ''Missing order or product information'') ''error'' s,
                [])
          else (callApex (AddExternalProductToOrder (recordId s) row) (s\<lparr>isLoading := True\<rparr>),
                [HandleAddExternalProductK row]))"

definition handleAddExternalProduct_answered ::
  "product_row \<Rightarrow> apex_result option apex \<Rightarrow> availableProducts \<Rightarrow>
     availableProducts \<times> continuation list" where
  "handleAddExternalProduct_answered row answer s =
     (case answer of
        Resolved (Some result) \<Rightarrow>
          if res_success result
          then (loadProducts_begin
                  (markProductAsAdded (js_or (productId row) (productCode row)) s),
                [HandleAddExternalProductReloadK row result])
          else ((showToast ''Error'' (optional (res_message result)) ''error'' s)
                  \<lparr>isLoading := False\<rparr>, [])
      | Resolved None \<Rightarrow>
          ((showToast ''Error'' (JString ''Failed to add external product'') ''error'' s)
             \<lparr>isLoading := False\<rparr>, [])
      | Rejected e \<Rightarrow>
          ((showErrorToast ''Error adding external product'' e s)\<lparr>isLoading := False\<rparr>, []))"

definition handleAddExternalProduct_reloaded ::
  "(string \<Rightarrow> string) \<Rightarrow> product_row \<Rightarrow> apex_result \<Rightarrow> product_row list option apex \<Rightarrow>
     availableProducts \<Rightarrow> availableProducts" where
  "handleAddExternalProduct_reloaded toLowerCase row result reload s =
     (let b = loadProducts_settle toLowerCase reload s;
          c = dispatchProductAddedEvent (js_or (productId row) (productCode row))
                (res_recordId result) b;
          d = showToast ''Success'' (optional (res_message result)) ''success'' c
      in (setTimeout RefreshCurrentRecordView 500 d)\<lparr>isLoading := False\<rparr>)"

text \<open>
  An event of the loop is the invocation of a handler, or the settling of the call
  that the \<open>i\<close>-th suspended handler awaits. An invocation runs the handler's first
  segment; a settling takes the continuation out of the list and runs its next
  segment, which may suspend again. A settling that names no suspended handler, or
  carries an answer of another call's type, is no event of the program and changes
  nothing.
\<close>

datatype loop_event =
    ConnectedCallback
  | InvokeLoadProducts
  | InvokeCheckActivation
  | InvokeHandleSearch string
  | InvokeHandleToggleExternal bool
  | InvokeHandleRowAction string product_row
  | InvokeApplyFilters
  | InvokeHandleNextPage
  | InvokeHandlePrevPage
  | TimerRefreshCurrentRecordView
  | Settle nat answer

fun invoke ::
  "(string \<Rightarrow> string) \<Rightarrow> loop_event \<Rightarrow> availableProducts \<Rightarrow>
     availableProducts \<times> continuation list" where
  "invoke lc ConnectedCallback s =
     (let (s1, ks) = checkActivation_begin (loadProducts_begin s) in (s1, LoadProductsK # ks))"
| "invoke lc InvokeLoadProducts s = (loadProducts_begin s, [LoadProductsK])"
| "invoke lc InvokeCheckActivation s = checkActivation_begin s"
| "invoke lc (InvokeHandleSearch v) s = (handleSearch lc v s, [])"
| "invoke lc (InvokeHandleToggleExternal checked) s =
     (loadProducts_begin (s\<lparr>includeExternal := checked\<rparr>), [LoadProductsK])"
| "invoke lc (InvokeHandleRowAction actionName row) s =
     (if actionName = ''add_product''
      then
        if isExternal row then handleAddExternalProduct_begin (Some row) s
        else handleAddProduct_begin (productId row) s
      else (s, []))"
| "invoke lc InvokeApplyFilters s = (applyFilters lc s, [])"
| "invoke lc InvokeHandleNextPage s = (handleNextPage s, [])"
| "invoke lc InvokeHandlePrevPage s = (handlePrevPage s, [])"
| "invoke lc TimerRefreshCurrentRecordView s = (refreshCurrentRecordView s, [])"
| "invoke lc (Settle i a) s = (s, [])"

fun resume ::
  "(string \<Rightarrow> string) \<Rightarrow> continuation \<Rightarrow> answer \<Rightarrow> availableProducts \<Rightarrow>
     (availableProducts \<times> continuation list) option" where
  "resume lc LoadProductsK (Catalog a) s = Some (loadProducts_settle lc a s, [])"
| "resume lc CheckActivationK (Activated a) s = Some (checkActivation_settle a s, [])"
| "resume lc (HandleAddProductK pid) (AddResult a) s = Some (handleAddProduct_answered pid a s)"
| "resume lc (HandleAddProductReloadK pid result) (Catalog a) s =
     Some (handleAddProduct_reloaded lc pid result a s, [])"
| "resume lc (HandleAddExternalProductK row) (AddResult a) s =
     Some (handleAddExternalProduct_answered row a s)"
| "resume lc (HandleAddExternalProductReloadK row result) (Catalog a) s =
     Some (handleAddExternalProduct_reloaded lc row result a s, [])"
| "resume lc k a s = None"

fun loop_step ::
  "(string \<Rightarrow> string) \<Rightarrow> loop_event \<Rightarrow> availableProducts \<times> continuation list \<Rightarrow>
     availableProducts \<times> continuation list" where
  "loop_step lc (Settle i a) (s, ks) =
     (if i < length ks
      then (case resume lc (ks ! i) a s of
              Some (s1, new) \<Rightarrow> (s1, take i ks @ drop (Suc i) ks @ new)
            | None \<Rightarrow> (s, ks))
      else (s, ks))"
| "loop_step lc ev (s, ks) = (let (s1, new) = invoke lc ev s in (s1, ks @ new))"

fun loop_run ::
  "(string \<Rightarrow> string) \<Rightarrow> loop_event list \<Rightarrow> availableProducts \<times> continuation list \<Rightarrow>
     availableProducts \<times> continuation list" where
  "loop_run lc [] st = st"
| "loop_run lc (ev # evs) st = loop_run lc evs (loop_step lc ev st)"

section \<open>Notions the properties are stated with\<close>



text \<open>The pagination invariant of the Product List View.\<close>

definition pageInRange :: "availableProducts \<Rightarrow> bool" where
  "pageInRange s = (1 \<le> currentPage s \<and> currentPage s \<le> totalPages s)"

text \<open>A step keeps the page when it leaves the page size as it is and either sets the
  page to 1 or leaves the page and the number of filtered rows as they are.\<close>

definition pageKept :: "availableProducts \<Rightarrow> availableProducts \<Rightarrow> bool" where
  "pageKept s t =
     (pageSize t = pageSize s \<and>
      (currentPage t = 1 \<or>
       (currentPage t = currentPage s \<and>
        length (filteredProducts t) = length (filteredProducts s))))"

text \<open>An event is a failed catalog load when it settles a call with a catalog answer
  that is rejected or \<^verbatim>\<open>null\<close>.\<close>

fun catalogFailure :: "loop_event \<Rightarrow> bool" where
  "catalogFailure (Settle i (Catalog (Resolved (Some data)))) = False"
| "catalogFailure (Settle i (Catalog a)) = True"
| "catalogFailure ev = False"

text \<open>
  The remote add has failed when the call is rejected, when it resolves with
  \<^verbatim>\<open>success\<close> false, or when it resolves with \<^verbatim>\<open>null\<close> (reading \<^verbatim>\<open>result.success\<close>
  then throws).
\<close>

fun addFailed :: "apex_result option apex \<Rightarrow> bool" where
  "addFailed (Rejected e) = True"
| "addFailed (Resolved None) = True"
| "addFailed (Resolved (Some result)) = (\<not> res_success result)"

text \<open>An operation denies the activation when it is a status check that the server
  answers with false.\<close>

fun order_denies :: "order_op \<Rightarrow> bool" where
  "order_denies (CheckOrderActivationStatus (Resolved activated)) = (\<not> activated)"
| "order_denies x = False"

fun product_denies :: "product_op \<Rightarrow> bool" where
  "product_denies (CheckActivation (Resolved activated)) = (\<not> activated)"
| "product_denies x = False"

text \<open>
  The value of a property as an expression of the specification: \<^verbatim>\<open>undefined\<close> where
  the value has no such property, also for \<^verbatim>\<open>undefined\<close> and \<^verbatim>\<open>null\<close> (where the
  program's own read, \<open>getProp\<close>, throws).
\<close>

fun field_of :: "js_value \<Rightarrow> string \<Rightarrow> js_value" where
  "field_of (JObject ps) name = (case map_of ps name of None \<Rightarrow> JUndefined | Some v \<Rightarrow> v)"
| "field_of v name = JUndefined"

text \<open>A catalog row as the server sends it, for the concrete inputs below.\<close>

definition exampleRow :: "string \<Rightarrow> string \<Rightarrow> bool \<Rightarrow> product_row" where
  "exampleRow pid name ext =
     \<lparr>productId = Some pid, productCode = Some pid, productName = Some name,
      category = None, brand = None, isExternal = ext, isAddedToOrder = False,
      statusLabel = None, statusClass = None, rowClass = None, sourceIcon = None,
      sourceBadgeClass = None, disableAdd = False\<rparr>"

section \<open>Properties of the shared helpers\<close>

lemma showToast_appends:
  "toasts (showToast title message variant s) =
     toasts s @ [ShowToastEvent title message variant
                   (if variant = ''error'' then ''sticky'' else ''dismissable'')]"
  by (simp add: showToast_def)

lemma getProp_truthy:
  assumes "js_truthy e"
  shows "getProp e name = Inr (field_of e name)"
  using assms by (cases e) simp_all

lemma field_of_falsy:
  assumes "\<not> js_truthy v"
  shows "field_of v name = JUndefined"
  using assms by (cases v) simp_all

lemma getErrorMessage_truthy:
  assumes "js_truthy e"
  shows "getErrorMessage e =
     Inr (if js_truthy (field_of (field_of e ''body'') ''message'')
          then field_of (field_of e ''body'') ''message''
          else if js_truthy (field_of e ''message'') then field_of e ''message''
          else if isString e then e
          else JString ''An error occurred. Please contact your administrator.'')"
proof (cases "js_truthy (field_of e ''body'')")
  case True
  with assms show ?thesis
    by (simp add: getErrorMessage_def js_bind_def getProp_truthy)
next
  case False
  then have "field_of (field_of e ''body'') ''message'' = JUndefined"
    by (rule field_of_falsy)
  with False assms show ?thesis
    by (simp add: getErrorMessage_def js_bind_def getProp_truthy)
qed

lemma getErrorMessage_returns: "\<exists>v. getErrorMessage e = Inr v \<and> js_truthy v"
proof (cases "js_truthy e")
  case True
  then show ?thesis by (simp add: getErrorMessage_truthy)
next
  case False
  then show ?thesis by (simp add: getErrorMessage_def)
qed

lemma showErrorToast_shows:
  "\<exists>message. showErrorToast title e s = showToast title message ''error'' s"
  using getErrorMessage_returns [of e] by (auto simp: showErrorToast_def)

lemma showErrorToast_toasts:
  "\<exists>t. showErrorToast title e s = s\<lparr>toasts := toasts s @ [t]\<rparr> \<and> toast_variant t = ''error''"
  using showErrorToast_shows [of title e s] by (auto simp: showToast_def)




section \<open>Properties of the Order Line View\<close>

text \<open>
  C5. \<^verbatim>\<open>handleActivateOrder\<close> is guarded: when the order id is missing, or the order is
  already activated, or there is no order row, it dispatches one toast and returns;
  no remote call is issued (in particular no \<^verbatim>\<open>activateOrder\<close>), and \<^verbatim>\<open>isActivated\<close>,
  the order items and every other field are as before.
\<close>

theorem handleActivateOrder_guarded:
  assumes "\<not> truthy (recordId s) \<or> isActivated s \<or> \<not> hasOrderItems s"
  shows "(\<exists>t. handleActivateOrder answer s = s\<lparr>toasts := toasts s @ [t]\<rparr>)
         \<and> apexCalls (handleActivateOrder answer s) = apexCalls s
         \<and> isActivated (handleActivateOrder answer s) = isActivated s
         \<and> orderItems (handleActivateOrder answer s) = orderItems s"
  using assms by (auto simp: handleActivateOrder_def showToast_def)

theorem handleActivateOrder_guarded_witness:
  "\<not> hasOrderItems (orderProducts_init (Some ''801''))
   \<and> apexCalls (handleActivateOrder
        (Resolved (Some \<lparr>res_success = True, res_message = Some ''ok'', res_recordId = None\<rparr>))
        (orderProducts_init (Some ''801''))) = []
   \<and> isActivated (handleActivateOrder
        (Resolved (Some \<lparr>res_success = True, res_message = Some ''ok'', res_recordId = None\<rparr>))
        (orderProducts_init (Some ''801''))) = False
   \<and> orderItems (handleActivateOrder
        (Resolved (Some \<lparr>res_success = True, res_message = Some ''ok'', res_recordId = None\<rparr>))
        (orderProducts_init (Some ''801''))) = []"
proof -
  have h: "\<not> hasOrderItems (orderProducts_init (Some ''801''))"
    by (simp add: hasOrderItems_def orderProducts_init_def)
  from handleActivateOrder_guarded
         [of "orderProducts_init (Some ''801'')", OF disjI2 [OF disjI2 [OF h]]] h
  show ?thesis by (simp add: orderProducts_init_def)
qed

text \<open>
  C6. A remove action on an activated order is rejected locally: one warning toast is
  dispatched, no remote call is issued (in particular no \<^verbatim>\<open>removeOrderItem\<close>), and the
  order items and every other field are as before. The handler itself checks the
  flag, so this holds however the action reaches it.
\<close>

theorem handleRowAction_remove_activated:
  assumes "isActivated s"
  shows "handleRowAction_order ''remove'' row answer settled s =
           s\<lparr>toasts := toasts s @
              [ShowToastEvent ''Warning'' (JString ''Cannot remove products from an activated order'')
                 ''warning'' ''dismissable'']\<rparr>
         \<and> apexCalls (handleRowAction_order ''remove'' row answer settled s) = apexCalls s
         \<and> orderItems (handleRowAction_order ''remove'' row answer settled s) = orderItems s"
  using assms by (simp add: handleRowAction_order_def showToast_def)

theorem handleRowAction_remove_activated_witness:
  "isActivated ((orderProducts_init (Some ''801''))\<lparr>isActivated := True\<rparr>)
   \<and> apexCalls (handleRowAction_order ''remove''
        \<lparr>orderItemId = Some ''802'', item_productName = None, item_productCode = None,
         unitPrice = 1, quantity = 1, totalPrice = 1, removeDisabled = True\<rparr>
        (Resolved (Some \<lparr>res_success = True, res_message = None, res_recordId = None\<rparr>))
        (Resolved None)
        ((orderProducts_init (Some ''801''))\<lparr>isActivated := True\<rparr>)) = []"
proof -
  have h: "isActivated ((orderProducts_init (Some ''801''))\<lparr>isActivated := True\<rparr>)"
    by simp
  from handleRowAction_remove_activated [OF h] h
  show ?thesis by (simp add: orderProducts_init_def)
qed

text \<open>
  C10. The message handler acts only on a message for its own order: for a \<^verbatim>\<open>null\<close>
  message, and for a message whose \<^verbatim>\<open>orderId\<close> is not the view's \<^verbatim>\<open>recordId\<close>,
  \<^verbatim>\<open>handleProductAddedMessage\<close> sets no timer (neither the data reload nor the record-view
  refresh) and leaves the whole state as it was.
\<close>

theorem handleProductAddedMessage_foreign:
  assumes "message = None \<or> (\<exists>m. message = Some m \<and> msg_orderId m \<noteq> recordId s)"
  shows "handleProductAddedMessage message s = s
         \<and> timers (handleProductAddedMessage message s) = timers s"
  using assms by (auto simp: handleProductAddedMessage_def)

theorem handleProductAddedMessage_foreign_witness:
  "msg_orderId \<lparr>msg_productId = Some ''01t'', msg_orderItemId = Some ''802'',
                msg_orderId = Some ''999''\<rparr> \<noteq> recordId (orderProducts_init (Some ''801''))
   \<and> handleProductAddedMessage
        (Some \<lparr>msg_productId = Some ''01t'', msg_orderItemId = Some ''802'',
               msg_orderId = Some ''999''\<rparr>) (orderProducts_init (Some ''801''))
       = orderProducts_init (Some ''801'')
   \<and> handleProductAddedMessage None (orderProducts_init (Some ''801''))
       = orderProducts_init (Some ''801'')
   \<and> timers (handleProductAddedMessage
        (Some \<lparr>msg_productId = Some ''01t'', msg_orderItemId = Some ''802'',
               msg_orderId = Some ''801''\<rparr>) (orderProducts_init (Some ''801'')))
       = [(0, RefreshOrderProducts), (400, RefreshCurrentRecordView)]"
  using handleProductAddedMessage_foreign
          [of "Some \<lparr>msg_productId = Some ''01t'', msg_orderItemId = Some ''802'',
                      msg_orderId = Some ''999''\<rparr>" "orderProducts_init (Some ''801'')"]
        handleProductAddedMessage_foreign [of None "orderProducts_init (Some ''801'')"]
  by (simp add: orderProducts_init_def handleProductAddedMessage_def setTimeout_def)


section \<open>Pagination of the Product List View\<close>

lemma jsSlice_nonneg:
  assumes "0 \<le> a" and "a \<le> b"
  shows "jsSlice xs a b = take (nat (b - a)) (drop (nat a) xs)"
proof (cases "a \<le> int (length xs)")
  case True
  have "take (nat (min b (int (length xs)) - a)) (drop (nat a) xs) =
        take (nat (b - a)) (drop (nat a) xs)"
  proof (cases "b \<le> int (length xs)")
    case True
    then show ?thesis by (simp add: min_def)
  next
    case False
    with \<open>a \<le> int (length xs)\<close> assms show ?thesis by (simp add: min_def)
  qed
  with True assms show ?thesis by (simp add: min_def)
next
  case False
  with assms show ?thesis by (simp add: min_def)
qed

lemma take_drop_nth:
  "take n (drop k xs) = map (\<lambda>i. xs ! i) [k..<min (k + n) (length xs)]"
  by (rule nth_equalityI) auto

lemma totalPages_ge1:
  assumes "0 < pageSize s"
  shows "1 \<le> totalPages s"
proof (cases "length (filteredProducts s) = 0")
  case True
  then show ?thesis by (simp add: totalPages_def)
next
  case False
  with assms have "0 < real (length (filteredProducts s)) / real_of_int (pageSize s)"
    by simp
  then show ?thesis using False by (simp add: totalPages_def le_ceiling_iff)
qed

lemma totalPages_cover:
  assumes "0 < pageSize s"
  shows "int (length (filteredProducts s)) \<le> totalPages s * pageSize s"
proof (cases "length (filteredProducts s) = 0")
  case True
  with assms show ?thesis by (simp add: totalPages_def)
next
  case False
  from assms have "0 < real_of_int (pageSize s)" by simp
  from ceiling_divide_upper [OF this, of "real (length (filteredProducts s))"]
  have "real (length (filteredProducts s)) \<le> real_of_int (totalPages s * pageSize s)"
    using False by (simp add: totalPages_def)
  then have "real_of_int (int (length (filteredProducts s))) \<le> real_of_int (totalPages s * pageSize s)"
    by simp
  then show ?thesis by (simp only: of_int_le_iff)
qed

lemma pagedProducts_slice:
  assumes "0 < pageSize s" and "1 \<le> p"
  shows "pagedProducts (s\<lparr>currentPage := p\<rparr>) =
           take (nat (pageSize s)) (drop (nat ((p - 1) * pageSize s)) (filteredProducts s))"
proof -
  from assms have "0 \<le> (p - 1) * pageSize s" by simp
  moreover from assms have "(p - 1) * pageSize s \<le> (p - 1) * pageSize s + pageSize s" by simp
  ultimately show ?thesis
    by (simp add: pagedProducts_def Let_def jsSlice_nonneg del: jsSlice.simps)
qed

lemma pages_concat:
  "concat (map (\<lambda>p. take n (drop (nat ((p - 1) * int n)) xs)) [1..int k]) = take (k * n) xs"
proof (induction k)
  case 0
  then show ?case by simp
next
  case (Suc k)
  have "[1..int (Suc k)] = [1..int k] @ [int k + 1]"
    using upto_rec2 [of 1 "int (Suc k)"] by (simp add: add.commute)
  moreover have "nat (int k * int n) = k * n"
    by (simp add: nat_mult_distrib)
  ultimately show ?case
    using Suc.IH by (simp add: take_add [symmetric] add.commute)
qed

lemma page_position_unique:
  fixes a b i j P :: int
  assumes "0 \<le> i" "i < P" "0 \<le> j" "j < P" "a * P + i = b * P + j"
  shows "a = b \<and> i = j"
proof -
  have "a = b"
  proof (rule ccontr)
    assume "a \<noteq> b"
    then consider "a + 1 \<le> b" | "b + 1 \<le> a" by linarith
    then show False
    proof cases
      case 1
      with assms have "(a + 1) * P \<le> b * P" by (intro mult_right_mono) auto
      with assms show False by (simp add: algebra_simps)
    next
      case 2
      with assms have "(b + 1) * P \<le> a * P" by (intro mult_right_mono) auto
      with assms show False by (simp add: algebra_simps)
    qed
  qed
  with assms show ?thesis by simp
qed

text \<open>
  C3. For a positive page size \<open>P\<close> and a filtered list of length \<open>L\<close>:
  \<^verbatim>\<open>totalPages\<close> is \<open>max 1 \<lceil>L / P\<rceil>\<close>; on every page \<open>p\<close> from 1 to \<^verbatim>\<open>totalPages\<close>,
  \<^verbatim>\<open>pagedProducts\<close> is the rows of \<^verbatim>\<open>filteredProducts\<close> at the indices \<open>(p - 1) * P\<close> up to,
  not including, \<open>p * P\<close> (cut at \<open>L\<close>); the pages 1 to \<^verbatim>\<open>totalPages\<close>, one after the
  other, are \<^verbatim>\<open>filteredProducts\<close>; and a position of \<^verbatim>\<open>filteredProducts\<close> is shown on
  one page only, at one place of it.
\<close>

theorem pagination_partition:
  assumes "0 < pageSize s"
  shows "totalPages s = max 1 \<lceil>real (length (filteredProducts s)) / real_of_int (pageSize s)\<rceil>
    \<and> (\<forall>p. 1 \<le> p \<and> p \<le> totalPages s \<longrightarrow>
          pagedProducts (s\<lparr>currentPage := p\<rparr>) =
            map (\<lambda>i. filteredProducts s ! i)
              [nat ((p - 1) * pageSize s)..<
                 min (nat (p * pageSize s)) (length (filteredProducts s))])
    \<and> concat (map (\<lambda>p. pagedProducts (s\<lparr>currentPage := p\<rparr>)) [1..totalPages s])
          = filteredProducts s
    \<and> (\<forall>p q i j. 1 \<le> p \<and> 1 \<le> q
          \<and> i < length (pagedProducts (s\<lparr>currentPage := p\<rparr>))
          \<and> j < length (pagedProducts (s\<lparr>currentPage := q\<rparr>))
          \<and> (p - 1) * pageSize s + int i = (q - 1) * pageSize s + int j
          \<longrightarrow> p = q \<and> i = j)"
proof (intro conjI allI impI)
  show "totalPages s = max 1 \<lceil>real (length (filteredProducts s)) / real_of_int (pageSize s)\<rceil>"
  proof (cases "length (filteredProducts s) = 0")
    case True
    then show ?thesis by (simp add: totalPages_def)
  next
    case False
    with totalPages_ge1 [OF assms] show ?thesis by (simp add: totalPages_def)
  qed
next
  fix p
  assume p: "1 \<le> p \<and> p \<le> totalPages s"
  with assms have "nat ((p - 1) * pageSize s) + nat (pageSize s) = nat (p * pageSize s)"
    by (simp add: nat_add_distrib [symmetric] algebra_simps)
  with p show "pagedProducts (s\<lparr>currentPage := p\<rparr>) =
      map (\<lambda>i. filteredProducts s ! i)
        [nat ((p - 1) * pageSize s)..<min (nat (p * pageSize s)) (length (filteredProducts s))]"
    by (simp add: pagedProducts_slice [OF assms] take_drop_nth)
next
  define n where "n = nat (pageSize s)"
  define k where "k = nat (totalPages s)"
  from assms have n: "pageSize s = int n" by (simp add: n_def)
  from totalPages_ge1 [OF assms] have k: "totalPages s = int k" by (simp add: k_def)
  have "map (\<lambda>p. pagedProducts (s\<lparr>currentPage := p\<rparr>)) [1..totalPages s] =
        map (\<lambda>p. take n (drop (nat ((p - 1) * int n)) (filteredProducts s))) [1..int k]"
    using assms by (simp add: pagedProducts_slice n [symmetric] k [symmetric] n_def)
  moreover from totalPages_cover [OF assms] have "length (filteredProducts s) \<le> k * n"
    unfolding n k by (metis of_nat_le_iff of_nat_mult)
  ultimately show "concat (map (\<lambda>p. pagedProducts (s\<lparr>currentPage := p\<rparr>)) [1..totalPages s])
      = filteredProducts s"
    by (simp add: pages_concat)
next
  fix p q :: int and i j :: nat
  assume h: "1 \<le> p \<and> 1 \<le> q
          \<and> i < length (pagedProducts (s\<lparr>currentPage := p\<rparr>))
          \<and> j < length (pagedProducts (s\<lparr>currentPage := q\<rparr>))
          \<and> (p - 1) * pageSize s + int i = (q - 1) * pageSize s + int j"
  with assms have "int i < pageSize s" "int j < pageSize s"
    by (auto simp: pagedProducts_slice)
  with h have "p - 1 = q - 1 \<and> int i = int j"
    by (intro page_position_unique [of "int i" "pageSize s" "int j"]) auto
  then show "p = q" and "i = j" by auto
qed

theorem pagination_partition_witness:
  "0 < pageSize ((availableProducts_init (Some ''801''))
         \<lparr>filteredProducts := [exampleRow ''a'' ''A'' False, exampleRow ''b'' ''B'' False,
                               exampleRow ''c'' ''C'' True], pageSize := 2\<rparr>)
   \<and> totalPages ((availableProducts_init (Some ''801''))
         \<lparr>filteredProducts := [exampleRow ''a'' ''A'' False, exampleRow ''b'' ''B'' False,
                               exampleRow ''c'' ''C'' True], pageSize := 2\<rparr>) = 2
   \<and> pagedProducts ((availableProducts_init (Some ''801''))
         \<lparr>filteredProducts := [exampleRow ''a'' ''A'' False, exampleRow ''b'' ''B'' False,
                               exampleRow ''c'' ''C'' True], pageSize := 2, currentPage := 2\<rparr>)
       = [exampleRow ''c'' ''C'' True]
   \<and> concat (map (\<lambda>p. pagedProducts ((availableProducts_init (Some ''801''))
         \<lparr>filteredProducts := [exampleRow ''a'' ''A'' False, exampleRow ''b'' ''B'' False,
                               exampleRow ''c'' ''C'' True], pageSize := 2, currentPage := p\<rparr>))
         [1..2])
       = [exampleRow ''a'' ''A'' False, exampleRow ''b'' ''B'' False, exampleRow ''c'' ''C'' True]"
proof -
  define s where "s = (availableProducts_init (Some ''801''))
         \<lparr>filteredProducts := [exampleRow ''a'' ''A'' False, exampleRow ''b'' ''B'' False,
                               exampleRow ''c'' ''C'' True], pageSize := 2\<rparr>"
  have h: "0 < pageSize s" by (simp add: s_def)
  have t: "totalPages s = 2" by (simp add: s_def totalPages_def)
  from pagination_partition [OF h] t
  have "pagedProducts (s\<lparr>currentPage := 2\<rparr>) =
          map (\<lambda>i. filteredProducts s ! i)
            [nat ((2 - 1) * pageSize s)..<min (nat (2 * pageSize s)) (length (filteredProducts s))]"
    and "concat (map (\<lambda>p. pagedProducts (s\<lparr>currentPage := p\<rparr>)) [1..2]) = filteredProducts s"
    by auto
  with h t show ?thesis
    by (simp add: s_def upt_rec)
qed


section \<open>Searching the catalog\<close>











lemma applyFilters_subset:
  "set (filteredProducts (applyFilters toLowerCase s)) \<subseteq> set (products s)"
  by (auto simp: applyFilters_def Let_def)



section \<open>Adding a product: the failure path\<close>

lemma handleAddProduct_failed_shape:
  assumes "addFailed answer"
  shows "\<exists>title message.
           handleAddProduct toLowerCase pid answer reload s = showToast title message ''error'' s
           \<or> handleAddProduct toLowerCase pid answer reload s =
               (showToast title message ''error''
                  (callApex (AddProductToOrder (recordId s) pid) (s\<lparr>isLoading := True\<rparr>)))
               \<lparr>isLoading := False\<rparr>"
proof (cases "\<not> truthy pid \<or> \<not> truthy (recordId s)")
  case True
  then have "handleAddProduct toLowerCase pid answer reload s =
      showToast ''Error'' (JString ''Missing product or order information'') ''error'' s"
    by (auto simp: handleAddProduct_def)
  then show ?thesis by blast
next
  case False
  let ?s1 = "callApex (AddProductToOrder (recordId s) pid) (s\<lparr>isLoading := True\<rparr>)"
  show ?thesis
  proof (cases answer)
    case (Rejected e)
    from showErrorToast_shows [of "''Error adding product''" e ?s1] obtain m
      where "showErrorToast ''Error adding product'' e ?s1
               = showToast ''Error adding product'' m ''error'' ?s1" by blast
    with False Rejected have "handleAddProduct toLowerCase pid answer reload s =
        (showToast ''Error adding product'' m ''error'' ?s1)\<lparr>isLoading := False\<rparr>"
      by (simp add: handleAddProduct_def Let_def)
    then show ?thesis by blast
  next
    case (Resolved r)
    show ?thesis
    proof (cases r)
      case None
      from showErrorToast_shows [of "''Error adding product''" nullResultError ?s1] obtain m
        where "showErrorToast ''Error adding product'' nullResultError ?s1
                 = showToast ''Error adding product'' m ''error'' ?s1" by blast
      with False Resolved None have "handleAddProduct toLowerCase pid answer reload s =
          (showToast ''Error adding product'' m ''error'' ?s1)\<lparr>isLoading := False\<rparr>"
        by (simp add: handleAddProduct_def Let_def)
      then show ?thesis by blast
    next
      case (Some result)
      with assms Resolved have "\<not> res_success result" by simp
      with False Resolved Some have "handleAddProduct toLowerCase pid answer reload s =
          (showToast ''Error'' (optional (res_message result)) ''error'' ?s1)\<lparr>isLoading := False\<rparr>"
        by (simp add: handleAddProduct_def Let_def)
      then show ?thesis by blast
    qed
  qed
qed

text \<open>
  C9. When the remote add of \<^verbatim>\<open>handleAddProduct\<close> fails (the call is rejected, or it
  resolves with \<^verbatim>\<open>success\<close> false or with \<^verbatim>\<open>null\<close>), \<^verbatim>\<open>products\<close> and
  \<^verbatim>\<open>filteredProducts\<close> are exactly what they were, so no row's status, styling or
  disabled flag changes; one toast of variant \<^verbatim>\<open>error\<close> is dispatched, and no
  ProductAddedEvent is published.
\<close>

theorem handleAddProduct_failure:
  assumes "addFailed answer"
  shows "products (handleAddProduct toLowerCase pid answer reload s) = products s
         \<and> filteredProducts (handleAddProduct toLowerCase pid answer reload s) = filteredProducts s
         \<and> (\<exists>t. toasts (handleAddProduct toLowerCase pid answer reload s) = toasts s @ [t]
                \<and> toast_variant t = ''error'')
         \<and> published (handleAddProduct toLowerCase pid answer reload s) = published s"
  using handleAddProduct_failed_shape [OF assms, of toLowerCase pid reload s]
  by (auto simp: showToast_def callApex_def)

theorem handleAddProduct_failure_witness:
  "addFailed (Resolved (Some \<lparr>res_success = False, res_message = Some ''Order is activated'',
                              res_recordId = None\<rparr>))
   \<and> products (handleAddProduct asciiLowerCase (Some ''01t1'')
        (Resolved (Some \<lparr>res_success = False, res_message = Some ''Order is activated'',
                         res_recordId = None\<rparr>))
        (Resolved (Some []))
        ((availableProducts_init (Some ''801''))
           \<lparr>products := [exampleRow ''01t1'' ''KPN Mobile'' False],
            filteredProducts := [exampleRow ''01t1'' ''KPN Mobile'' False]\<rparr>))
       = [exampleRow ''01t1'' ''KPN Mobile'' False]
   \<and> filteredProducts (handleAddProduct asciiLowerCase (Some ''01t1'')
        (Resolved (Some \<lparr>res_success = False, res_message = Some ''Order is activated'',
                         res_recordId = None\<rparr>))
        (Resolved (Some []))
        ((availableProducts_init (Some ''801''))
           \<lparr>products := [exampleRow ''01t1'' ''KPN Mobile'' False],
            filteredProducts := [exampleRow ''01t1'' ''KPN Mobile'' False]\<rparr>))
       = [exampleRow ''01t1'' ''KPN Mobile'' False]"
proof -
  have h: "addFailed (Resolved (Some \<lparr>res_success = False,
             res_message = Some ''Order is activated'', res_recordId = None\<rparr>))"
    by simp
  from handleAddProduct_failure [OF h] h show ?thesis
    by simp
qed

section \<open>What the helpers leave alone\<close>

lemma showToast_frame:
  "isActivated (showToast title message variant s) = isActivated s"
  "recordId (showToast title message variant s) = recordId s"
  "apexCalls (showToast title message variant s) = apexCalls s"
  "component.more (showToast title message variant s) = component.more s"
  by (simp_all add: showToast_def)

lemma callApex_frame:
  "isActivated (callApex c s) = isActivated s"
  "recordId (callApex c s) = recordId s"
  "toasts (callApex c s) = toasts s"
  "component.more (callApex c s) = component.more s"
  by (simp_all add: callApex_def)

lemma setTimeout_frame:
  "isActivated (setTimeout a ms s) = isActivated s"
  "recordId (setTimeout a ms s) = recordId s"
  "toasts (setTimeout a ms s) = toasts s"
  "component.more (setTimeout a ms s) = component.more s"
  by (simp_all add: setTimeout_def)

lemma showErrorToast_frame:
  "isActivated (showErrorToast title e s) = isActivated s"
  "recordId (showErrorToast title e s) = recordId s"
  "apexCalls (showErrorToast title e s) = apexCalls s"
  "component.more (showErrorToast title e s) = component.more s"
  using showErrorToast_shows [of title e s] by (auto simp: showToast_frame)

lemma showToast_view:
  fixes s :: availableProducts
  shows "currentPage (showToast title message variant s) = currentPage s"
    and "pageSize (showToast title message variant s) = pageSize s"
    and "filteredProducts (showToast title message variant s) = filteredProducts s"
    and "products (showToast title message variant s) = products s"
    and "published (showToast title message variant s) = published s"
  by (simp_all add: showToast_def)

lemma callApex_view:
  fixes s :: availableProducts
  shows "currentPage (callApex c s) = currentPage s"
    and "pageSize (callApex c s) = pageSize s"
    and "filteredProducts (callApex c s) = filteredProducts s"
    and "products (callApex c s) = products s"
    and "published (callApex c s) = published s"
  by (simp_all add: callApex_def)

lemma setTimeout_view:
  fixes s :: availableProducts
  shows "currentPage (setTimeout a ms s) = currentPage s"
    and "pageSize (setTimeout a ms s) = pageSize s"
    and "filteredProducts (setTimeout a ms s) = filteredProducts s"
    and "products (setTimeout a ms s) = products s"
    and "published (setTimeout a ms s) = published s"
  by (simp_all add: setTimeout_def)

lemma dispatchProductAddedEvent_view:
  "currentPage (dispatchProductAddedEvent pid item s) = currentPage s"
  "pageSize (dispatchProductAddedEvent pid item s) = pageSize s"
  "filteredProducts (dispatchProductAddedEvent pid item s) = filteredProducts s"
  "products (dispatchProductAddedEvent pid item s) = products s"
  "isActivated (dispatchProductAddedEvent pid item s) = isActivated s"
  "recordId (dispatchProductAddedEvent pid item s) = recordId s"
  "published (dispatchProductAddedEvent pid item s) =
     published s @ [\<lparr>msg_productId = pid, msg_orderItemId = item, msg_orderId = recordId s\<rparr>]"
  by (simp_all add: dispatchProductAddedEvent_def)

lemma markProductAsAdded_view:
  "currentPage (markProductAsAdded pid s) = currentPage s"
  "pageSize (markProductAsAdded pid s) = pageSize s"
  "filteredProducts (markProductAsAdded pid s) = map (markRow pid) (filteredProducts s)"
  "products (markProductAsAdded pid s) = map (markRow pid) (products s)"
  "isActivated (markProductAsAdded pid s) = isActivated s"
  "recordId (markProductAsAdded pid s) = recordId s"
  "published (markProductAsAdded pid s) = published s"
  by (simp_all add: markProductAsAdded_def recount_def)

lemma applyFilters_view:
  "currentPage (applyFilters toLowerCase s) = 1"
  "pageSize (applyFilters toLowerCase s) = pageSize s"
  "products (applyFilters toLowerCase s) = products s"
  "isActivated (applyFilters toLowerCase s) = isActivated s"
  "recordId (applyFilters toLowerCase s) = recordId s"
  "published (applyFilters toLowerCase s) = published s"
  by (simp_all add: applyFilters_def Let_def)

lemma loadProducts_failed_view:
  "currentPage (loadProducts_failed e s) = currentPage s"
  "pageSize (loadProducts_failed e s) = pageSize s"
  "products (loadProducts_failed e s) = []"
  "filteredProducts (loadProducts_failed e s) = []"
  "isActivated (loadProducts_failed e s) = isActivated s"
  "recordId (loadProducts_failed e s) = recordId s"
  "published (loadProducts_failed e s) = published s"
  using getErrorMessage_returns [of e]
  by (auto simp: loadProducts_failed_def showToast_def)

lemma loadProducts_view:
  "currentPage (loadProducts toLowerCase answer s) = 1"
  "pageSize (loadProducts toLowerCase answer s) = pageSize s"
  "isActivated (loadProducts toLowerCase answer s) = isActivated s"
  "recordId (loadProducts toLowerCase answer s) = recordId s"
  "published (loadProducts toLowerCase answer s) = published s"
proof -
  show "currentPage (loadProducts toLowerCase answer s) = 1"
    by (cases answer; cases "case answer of Resolved d \<Rightarrow> d | _ \<Rightarrow> None")
      (simp_all add: loadProducts_def Let_def applyFilters_view loadProducts_failed_view
        callApex_view)
  show "pageSize (loadProducts toLowerCase answer s) = pageSize s"
    by (cases answer; cases "case answer of Resolved d \<Rightarrow> d | _ \<Rightarrow> None")
      (simp_all add: loadProducts_def Let_def applyFilters_view loadProducts_failed_view
        callApex_view recount_def)
  show "isActivated (loadProducts toLowerCase answer s) = isActivated s"
    by (cases answer; cases "case answer of Resolved d \<Rightarrow> d | _ \<Rightarrow> None")
      (simp_all add: loadProducts_def Let_def applyFilters_view loadProducts_failed_view
        callApex_frame recount_def)
  show "recordId (loadProducts toLowerCase answer s) = recordId s"
    by (cases answer; cases "case answer of Resolved d \<Rightarrow> d | _ \<Rightarrow> None")
      (simp_all add: loadProducts_def Let_def applyFilters_view loadProducts_failed_view
        callApex_frame recount_def)
  show "published (loadProducts toLowerCase answer s) = published s"
    by (cases answer; cases "case answer of Resolved d \<Rightarrow> d | _ \<Rightarrow> None")
      (simp_all add: loadProducts_def Let_def applyFilters_view loadProducts_failed_view
        callApex_view recount_def)
qed

lemma checkActivation_view:
  "currentPage (checkActivation answer s) = currentPage s"
  "pageSize (checkActivation answer s) = pageSize s"
  "length (filteredProducts (checkActivation answer s)) = length (filteredProducts s)"
  by (cases answer; simp add: checkActivation_def Let_def callApex_def)+

text \<open>The two ways \<^verbatim>\<open>handleAddProduct\<close> can go.\<close>

lemma handleAddProduct_success:
  assumes "truthy pid" and "truthy (recordId s)" and "res_success result"
  shows "handleAddProduct toLowerCase pid (Resolved (Some result)) reload s =
     (setTimeout RefreshCurrentRecordView 500
        (showToast ''Success'' (optional (res_message result)) ''success''
           (dispatchProductAddedEvent pid (res_recordId result)
              (markProductAsAdded pid
                 (loadProducts toLowerCase reload
                    (callApex (AddProductToOrder (recordId s) pid) (s\<lparr>isLoading := True\<rparr>)))))))
       \<lparr>isLoading := False\<rparr>"
  using assms by (simp add: handleAddProduct_def Let_def)

lemma handleAddProduct_otherwise:
  assumes "\<not> truthy pid \<or> \<not> truthy (recordId s) \<or> addFailed answer"
  shows "products (handleAddProduct toLowerCase pid answer reload s) = products s"
    and "filteredProducts (handleAddProduct toLowerCase pid answer reload s) = filteredProducts s"
    and "currentPage (handleAddProduct toLowerCase pid answer reload s) = currentPage s"
    and "pageSize (handleAddProduct toLowerCase pid answer reload s) = pageSize s"
    and "isActivated (handleAddProduct toLowerCase pid answer reload s) = isActivated s"
    and "published (handleAddProduct toLowerCase pid answer reload s) = published s"
proof -
  let ?h = "handleAddProduct toLowerCase pid answer reload s"
  have "products ?h = products s \<and> filteredProducts ?h = filteredProducts s
        \<and> currentPage ?h = currentPage s \<and> pageSize ?h = pageSize s
        \<and> isActivated ?h = isActivated s \<and> published ?h = published s"
  proof (cases "\<not> truthy pid \<or> \<not> truthy (recordId s)")
    case True
    then show ?thesis by (auto simp: handleAddProduct_def showToast_def)
  next
    case False
    with assms have "addFailed answer" by auto
    from handleAddProduct_failed_shape [OF this, of toLowerCase pid reload s]
    show ?thesis by (auto simp: showToast_def callApex_def)
  qed
  then show "products ?h = products s" and "filteredProducts ?h = filteredProducts s"
    and "currentPage ?h = currentPage s" and "pageSize ?h = pageSize s"
    and "isActivated ?h = isActivated s" and "published ?h = published s"
    by simp_all
qed

lemma handleAddProduct_split:
  "(\<exists>result. truthy pid \<and> truthy (recordId s) \<and> answer = Resolved (Some result)
       \<and> res_success result)
   \<or> (\<not> truthy pid \<or> \<not> truthy (recordId s) \<or> addFailed answer)"
proof (cases answer)
  case (Rejected e)
  then show ?thesis by simp
next
  case (Resolved r)
  then show ?thesis by (cases r) auto
qed

text \<open>The two ways \<^verbatim>\<open>handleAddExternalProduct\<close> can go.\<close>

lemma handleAddExternalProduct_success:
  assumes "truthy (recordId s)" and "res_success result"
  shows "handleAddExternalProduct toLowerCase (Some row) (Resolved (Some result)) reload s =
     (setTimeout RefreshCurrentRecordView 500
        (showToast ''Success'' (optional (res_message result)) ''success''
           (dispatchProductAddedEvent (js_or (productId row) (productCode row))
              (res_recordId result)
              (loadProducts toLowerCase reload
                 (markProductAsAdded (js_or (productId row) (productCode row))
                    (callApex (AddExternalProductToOrder (recordId s) row)
                       (s\<lparr>isLoading := True\<rparr>)))))))
       \<lparr>isLoading := False\<rparr>"
  using assms by (simp add: handleAddExternalProduct_def Let_def)

lemma handleAddExternalProduct_failed_shape:
  assumes "product = None \<or> \<not> truthy (recordId s) \<or> addFailed answer"
  shows "\<exists>title message c.
           handleAddExternalProduct toLowerCase product answer reload s
             = showToast title message ''error'' s
           \<or> handleAddExternalProduct toLowerCase product answer reload s =
               (showToast title message ''error'' (callApex c (s\<lparr>isLoading := True\<rparr>)))
               \<lparr>isLoading := False\<rparr>"
proof (cases "product = None \<or> \<not> truthy (recordId s)")
  case True
  then have "handleAddExternalProduct toLowerCase product answer reload s =
      showToast ''Error'' (JString ''Missing order or product information'') ''error'' s"
    by (cases product) (auto simp: handleAddExternalProduct_def)
  then show ?thesis by blast
next
  case False
  with assms have f: "addFailed answer" by auto
  from False obtain row where row: "product = Some row" by auto
  let ?s1 = "callApex (AddExternalProductToOrder (recordId s) row) (s\<lparr>isLoading := True\<rparr>)"
  show ?thesis
  proof (cases answer)
    case (Rejected e)
    from showErrorToast_shows [of "''Error adding external product''" e ?s1] obtain m
      where "showErrorToast ''Error adding external product'' e ?s1
               = showToast ''Error adding external product'' m ''error'' ?s1" by blast
    with False row Rejected
    have "handleAddExternalProduct toLowerCase product answer reload s =
        (showToast ''Error adding external product'' m ''error'' ?s1)\<lparr>isLoading := False\<rparr>"
      by (simp add: handleAddExternalProduct_def Let_def)
    then show ?thesis by blast
  next
    case (Resolved r)
    show ?thesis
    proof (cases r)
      case None
      with False row Resolved
      have "handleAddExternalProduct toLowerCase product answer reload s =
          (showToast ''Error'' (JString ''Failed to add external product'') ''error'' ?s1)
            \<lparr>isLoading := False\<rparr>"
        by (simp add: handleAddExternalProduct_def Let_def)
      then show ?thesis by blast
    next
      case (Some result)
      with f Resolved have "\<not> res_success result" by simp
      with False row Resolved Some
      have "handleAddExternalProduct toLowerCase product answer reload s =
          (showToast ''Error'' (optional (res_message result)) ''error'' ?s1)
            \<lparr>isLoading := False\<rparr>"
        by (simp add: handleAddExternalProduct_def Let_def)
      then show ?thesis by blast
    qed
  qed
qed

lemma handleAddExternalProduct_otherwise:
  assumes "product = None \<or> \<not> truthy (recordId s) \<or> addFailed answer"
  shows "products (handleAddExternalProduct toLowerCase product answer reload s) = products s"
    and "filteredProducts (handleAddExternalProduct toLowerCase product answer reload s)
           = filteredProducts s"
    and "currentPage (handleAddExternalProduct toLowerCase product answer reload s) = currentPage s"
    and "pageSize (handleAddExternalProduct toLowerCase product answer reload s) = pageSize s"
    and "isActivated (handleAddExternalProduct toLowerCase product answer reload s) = isActivated s"
    and "published (handleAddExternalProduct toLowerCase product answer reload s) = published s"
proof -
  let ?h = "handleAddExternalProduct toLowerCase product answer reload s"
  from handleAddExternalProduct_failed_shape [OF assms, of toLowerCase reload]
  have "products ?h = products s \<and> filteredProducts ?h = filteredProducts s
        \<and> currentPage ?h = currentPage s \<and> pageSize ?h = pageSize s
        \<and> isActivated ?h = isActivated s \<and> published ?h = published s"
    by (auto simp: showToast_def callApex_def)
  then show "products ?h = products s" and "filteredProducts ?h = filteredProducts s"
    and "currentPage ?h = currentPage s" and "pageSize ?h = pageSize s"
    and "isActivated ?h = isActivated s" and "published ?h = published s"
    by simp_all
qed

lemma handleAddExternalProduct_split:
  "(\<exists>row result. product = Some row \<and> truthy (recordId s) \<and> answer = Resolved (Some result)
       \<and> res_success result)
   \<or> (product = None \<or> \<not> truthy (recordId s) \<or> addFailed answer)"
proof (cases answer)
  case (Rejected e)
  then show ?thesis by simp
next
  case (Resolved r)
  then show ?thesis by (cases r; cases product) auto
qed

section \<open>The pagination invariant\<close>

lemma totalPages_cong:
  assumes "length (filteredProducts t) = length (filteredProducts s)"
    and "pageSize t = pageSize s"
  shows "totalPages t = totalPages s"
  using assms by (simp add: totalPages_def)

lemma pageInRange_first:
  assumes "0 < pageSize s" and "currentPage s = 1"
  shows "pageInRange s"
  using assms totalPages_ge1 [of s] by (simp add: pageInRange_def)

lemma pageInRange_cong:
  assumes "pageInRange s"
    and "length (filteredProducts t) = length (filteredProducts s)"
    and "pageSize t = pageSize s" and "currentPage t = currentPage s"
  shows "pageInRange t"
  using assms totalPages_cong [of t s] by (simp add: pageInRange_def)

lemma handleAddProduct_page:
  "pageSize (handleAddProduct toLowerCase pid answer reload s) = pageSize s"
  "(currentPage (handleAddProduct toLowerCase pid answer reload s) = currentPage s
      \<and> length (filteredProducts (handleAddProduct toLowerCase pid answer reload s))
          = length (filteredProducts s))
   \<or> currentPage (handleAddProduct toLowerCase pid answer reload s) = 1"
proof -
  let ?h = "handleAddProduct toLowerCase pid answer reload s"
  have "pageSize ?h = pageSize s
        \<and> ((currentPage ?h = currentPage s
              \<and> length (filteredProducts ?h) = length (filteredProducts s))
            \<or> currentPage ?h = 1)"
    using handleAddProduct_split [of pid s answer]
  proof
    assume "\<exists>result. truthy pid \<and> truthy (recordId s) \<and> answer = Resolved (Some result)
              \<and> res_success result"
    then obtain result where "truthy pid" "truthy (recordId s)"
      "answer = Resolved (Some result)" "res_success result" by auto
    then show ?thesis
      by (simp add: handleAddProduct_success setTimeout_view showToast_view
          dispatchProductAddedEvent_view markProductAsAdded_view loadProducts_view
          callApex_view)
  next
    assume "\<not> truthy pid \<or> \<not> truthy (recordId s) \<or> addFailed answer"
    then show ?thesis by (simp add: handleAddProduct_otherwise)
  qed
  then show "pageSize ?h = pageSize s"
    and "(currentPage ?h = currentPage s
            \<and> length (filteredProducts ?h) = length (filteredProducts s))
         \<or> currentPage ?h = 1"
    by simp_all
qed

lemma handleAddExternalProduct_page:
  "pageSize (handleAddExternalProduct toLowerCase product answer reload s) = pageSize s"
  "(currentPage (handleAddExternalProduct toLowerCase product answer reload s) = currentPage s
      \<and> length (filteredProducts (handleAddExternalProduct toLowerCase product answer reload s))
          = length (filteredProducts s))
   \<or> currentPage (handleAddExternalProduct toLowerCase product answer reload s) = 1"
proof -
  let ?h = "handleAddExternalProduct toLowerCase product answer reload s"
  have "pageSize ?h = pageSize s
        \<and> ((currentPage ?h = currentPage s
              \<and> length (filteredProducts ?h) = length (filteredProducts s))
            \<or> currentPage ?h = 1)"
    using handleAddExternalProduct_split [of product s answer]
  proof
    assume "\<exists>row result. product = Some row \<and> truthy (recordId s)
              \<and> answer = Resolved (Some result) \<and> res_success result"
    then obtain row result where "product = Some row" "truthy (recordId s)"
      "answer = Resolved (Some result)" "res_success result" by auto
    then show ?thesis
      by (simp add: handleAddExternalProduct_success setTimeout_view showToast_view
          dispatchProductAddedEvent_view markProductAsAdded_view loadProducts_view
          callApex_view)
  next
    assume "product = None \<or> \<not> truthy (recordId s) \<or> addFailed answer"
    then show ?thesis by (simp add: handleAddExternalProduct_otherwise)
  qed
  then show "pageSize ?h = pageSize s"
    and "(currentPage ?h = currentPage s
            \<and> length (filteredProducts ?h) = length (filteredProducts s))
         \<or> currentPage ?h = 1"
    by simp_all
qed

lemma handleNextPage_inRange:
  assumes "pageInRange s"
  shows "pageInRange (handleNextPage s)"
proof (cases "isLastPage s")
  case True
  with assms show ?thesis by (simp add: handleNextPage_def)
next
  case False
  have "totalPages (s\<lparr>currentPage := currentPage s + 1\<rparr>) = totalPages s"
    by (simp add: totalPages_def)
  with False assms show ?thesis
    by (simp add: handleNextPage_def pageInRange_def isLastPage_def)
qed

lemma handlePrevPage_inRange:
  assumes "pageInRange s"
  shows "pageInRange (handlePrevPage s)"
proof (cases "isFirstPage s")
  case True
  with assms show ?thesis by (simp add: handlePrevPage_def)
next
  case False
  have "totalPages (s\<lparr>currentPage := currentPage s - 1\<rparr>) = totalPages s"
    by (simp add: totalPages_def)
  with False assms show ?thesis
    by (simp add: handlePrevPage_def pageInRange_def isFirstPage_def)
qed

lemma product_step_pageSize: "pageSize (product_step lc x s) = pageSize s"
  by (cases x)
    (simp_all add: loadProducts_view checkActivation_view applyFilters_view handleSearch_def
      handleToggleExternal_def handleRowAction_def handleAddProduct_page
      handleAddExternalProduct_page handleNextPage_def handlePrevPage_def
      refreshCurrentRecordView_def)

lemma product_step_inRange:
  assumes "0 < pageSize s" and "pageInRange s"
  shows "pageInRange (product_step lc x s)"
proof -
  have first: "pageInRange t" if "pageSize t = pageSize s" and "currentPage t = 1" for t
    using that assms by (simp add: pageInRange_first)
  have same: "pageInRange t"
    if "pageSize t = pageSize s" and "currentPage t = currentPage s"
      and "length (filteredProducts t) = length (filteredProducts s)" for t
    using that assms by (simp add: pageInRange_cong [of s t])
  have add: "pageInRange (handleAddProduct lc pid a r s)" for pid a r
    using handleAddProduct_page [of lc pid a r s] first same by blast
  have ext: "pageInRange (handleAddExternalProduct lc p a r s)" for p a r
    using handleAddExternalProduct_page [of lc p a r s] first same by blast
  show ?thesis
  proof (cases x)
    case (LoadProducts a)
    then show ?thesis by (simp add: first loadProducts_view)
  next
    case (CheckActivation a)
    then show ?thesis by (simp add: same checkActivation_view)
  next
    case (HandleSearch v)
    then show ?thesis by (simp add: first handleSearch_def applyFilters_view)
  next
    case (HandleToggleExternal c a)
    then show ?thesis by (simp add: first handleToggleExternal_def loadProducts_view)
  next
    case (HandleRowAction n row a r)
    then show ?thesis using add ext assms by (simp add: handleRowAction_def)
  next
    case (HandleAddProduct pid a r)
    then show ?thesis using add by simp
  next
    case (HandleAddExternalProduct p a r)
    then show ?thesis using ext by simp
  next
    case ApplyFilters
    then show ?thesis by (simp add: first applyFilters_view)
  next
    case HandleNextPage
    then show ?thesis using assms by (simp add: handleNextPage_inRange)
  next
    case HandlePrevPage
    then show ?thesis using assms by (simp add: handlePrevPage_inRange)
  next
    case RefreshCurrentRecordViewP
    then show ?thesis by (simp add: same refreshCurrentRecordView_def)
  qed
qed

lemma product_run_inRange:
  assumes "0 < pageSize s" and "pageInRange s"
  shows "pageInRange (product_run lc xs s) \<and> pageSize (product_run lc xs s) = pageSize s"
  using assms
proof (induction xs arbitrary: s)
  case Nil
  then show ?case by simp
next
  case (Cons x xs)
  from Cons.prems have "0 < pageSize (product_step lc x s)" and "pageInRange (product_step lc x s)"
    by (simp_all add: product_step_pageSize product_step_inRange)
  from Cons.IH [OF this] show ?case by (simp add: product_step_pageSize)
qed

lemma scenario_25_rows:
  assumes "length (filteredProducts s) = 25" and "pageSize s = 10" and "currentPage s = 1"
  shows "pagedProducts s = take 10 (filteredProducts s)"
    and "\<not> isLastPage s"
    and "currentPage (handleNextPage (handleNextPage s)) = 3"
    and "pagedProducts (handleNextPage (handleNextPage s)) = drop 20 (filteredProducts s)"
    and "isLastPage (handleNextPage (handleNextPage s))"
    and "handleNextPage (handleNextPage (handleNextPage s)) = handleNextPage (handleNextPage s)"
proof -
  have tp: "totalPages t = 3"
    if "filteredProducts t = filteredProducts s" and "pageSize t = pageSize s" for t
    using that assms by (simp add: totalPages_def)
  have s2: "handleNextPage s = s\<lparr>currentPage := 2\<rparr>"
    using assms tp [of s] by (simp add: handleNextPage_def isLastPage_def)
  have "handleNextPage (s\<lparr>currentPage := 2\<rparr>) = s\<lparr>currentPage := 3\<rparr>"
    using assms tp [of "s\<lparr>currentPage := 2\<rparr>"] by (simp add: handleNextPage_def isLastPage_def)
  then have s3: "handleNextPage (handleNextPage s) = s\<lparr>currentPage := 3\<rparr>"
    by (simp only: s2)
  show "pagedProducts s = take 10 (filteredProducts s)"
    using assms by (simp add: pagedProducts_def)
  show "\<not> isLastPage s"
    using assms tp [of s] by (simp add: isLastPage_def)
  show "currentPage (handleNextPage (handleNextPage s)) = 3"
    by (simp add: s3)
  show "pagedProducts (handleNextPage (handleNextPage s)) = drop 20 (filteredProducts s)"
    using assms by (simp add: s3 pagedProducts_def)
  show "isLastPage (handleNextPage (handleNextPage s))"
    using tp [of "s\<lparr>currentPage := 3\<rparr>"] by (simp add: s3 isLastPage_def)
  have "handleNextPage (s\<lparr>currentPage := 3\<rparr>) = s\<lparr>currentPage := 3\<rparr>"
    using tp [of "s\<lparr>currentPage := 3\<rparr>"] by (simp add: handleNextPage_def isLastPage_def)
  then show "handleNextPage (handleNextPage (handleNextPage s)) = handleNextPage (handleNextPage s)"
    by (simp only: s3)
qed

section \<open>The handlers and their segments\<close>

lemma loadProducts_split:
  "loadProducts toLowerCase answer s =
     loadProducts_settle toLowerCase answer (loadProducts_begin s)"
  by (simp add: loadProducts_def loadProducts_settle_def loadProducts_begin_def Let_def)

lemma checkActivation_split:
  "checkActivation answer s =
     (if \<not> truthy (recordId s) then s
      else checkActivation_settle answer (callApex (IsOrderActivated (recordId s)) s))"
  by (simp add: checkActivation_def checkActivation_settle_def Let_def)

lemma handleAddProduct_reloaded_eq:
  assumes "truthy pid" and "truthy (recordId s)" and "res_success result"
  shows "handleAddProduct toLowerCase pid (Resolved (Some result)) reload s =
     handleAddProduct_reloaded toLowerCase pid result reload
       (loadProducts_begin
          (callApex (AddProductToOrder (recordId s) pid) (s\<lparr>isLoading := True\<rparr>)))"
  using assms
  by (simp add: handleAddProduct_success handleAddProduct_reloaded_def Let_def
      loadProducts_split)

lemma handleAddExternalProduct_reloaded_eq:
  assumes "truthy (recordId s)" and "res_success result"
  shows "handleAddExternalProduct toLowerCase (Some row) (Resolved (Some result)) reload s =
     handleAddExternalProduct_reloaded toLowerCase row result reload
       (loadProducts_begin
          (markProductAsAdded (js_or (productId row) (productCode row))
             (callApex (AddExternalProductToOrder (recordId s) row) (s\<lparr>isLoading := True\<rparr>))))"
  using assms
  by (simp add: handleAddExternalProduct_success handleAddExternalProduct_reloaded_def Let_def
      loadProducts_split)

lemma handleAddProduct_in_segments:
  "fst (loop_run lc [Settle 0 (AddResult answer), Settle 0 (Catalog reload)]
          (handleAddProduct_begin pid s))
     = handleAddProduct lc pid answer reload s"
proof (cases "\<not> truthy pid \<or> \<not> truthy (recordId s)")
  case True
  then show ?thesis
    by (auto simp: handleAddProduct_begin_def handleAddProduct_def)
next
  case False
  then have b: "handleAddProduct_begin pid s =
      (callApex (AddProductToOrder (recordId s) pid) (s\<lparr>isLoading := True\<rparr>),
       [HandleAddProductK pid])"
    by (simp add: handleAddProduct_begin_def)
  show ?thesis
  proof (cases answer)
    case (Rejected e)
    with False show ?thesis
      by (simp add: b handleAddProduct_answered_def handleAddProduct_def Let_def)
  next
    case (Resolved r)
    show ?thesis
    proof (cases r)
      case None
      with False Resolved show ?thesis
        by (simp add: b handleAddProduct_answered_def handleAddProduct_def Let_def)
    next
      case (Some result)
      show ?thesis
      proof (cases "res_success result")
        case True
        with False Resolved Some show ?thesis
          by (simp add: b handleAddProduct_answered_def handleAddProduct_reloaded_eq)
      next
        case no: False
        with False Resolved Some show ?thesis
          by (simp add: b handleAddProduct_answered_def handleAddProduct_def Let_def)
      qed
    qed
  qed
qed

lemma handleAddExternalProduct_in_segments:
  "fst (loop_run lc [Settle 0 (AddResult answer), Settle 0 (Catalog reload)]
          (handleAddExternalProduct_begin product s))
     = handleAddExternalProduct lc product answer reload s"
proof (cases "product = None \<or> \<not> truthy (recordId s)")
  case True
  then show ?thesis
    by (cases product)
      (auto simp: handleAddExternalProduct_begin_def handleAddExternalProduct_def)
next
  case False
  then obtain row where row: "product = Some row" by auto
  with False have b: "handleAddExternalProduct_begin (Some row) s =
      (callApex (AddExternalProductToOrder (recordId s) row) (s\<lparr>isLoading := True\<rparr>),
       [HandleAddExternalProductK row])"
    by (simp add: handleAddExternalProduct_begin_def)
  show ?thesis
  proof (cases answer)
    case (Rejected e)
    with False row show ?thesis
      by (simp add: b handleAddExternalProduct_answered_def handleAddExternalProduct_def Let_def)
  next
    case (Resolved r)
    show ?thesis
    proof (cases r)
      case None
      with False row Resolved show ?thesis
        by (simp add: b handleAddExternalProduct_answered_def handleAddExternalProduct_def
            Let_def)
    next
      case (Some result)
      show ?thesis
      proof (cases "res_success result")
        case True
        with False row Resolved Some show ?thesis
          by (simp add: b handleAddExternalProduct_answered_def
              handleAddExternalProduct_reloaded_eq)
      next
        case no: False
        with False row Resolved Some show ?thesis
          by (simp add: b handleAddExternalProduct_answered_def handleAddExternalProduct_def
              Let_def)
      qed
    qed
  qed
qed

text \<open>
  A handler that the event loop runs with no other event in between, its calls
  settling one after the other, ends in the state that the handler run as a whole
  ends in.
\<close>

lemma handlers_in_segments:
  "fst (loop_run lc [InvokeLoadProducts, Settle 0 (Catalog a)] (s, [])) = loadProducts lc a s"
  "fst (loop_run lc [InvokeCheckActivation, Settle 0 (Activated b)] (s, [])) = checkActivation b s"
  "fst (loop_run lc [InvokeHandleToggleExternal c, Settle 0 (Catalog a)] (s, []))
     = handleToggleExternal lc c a s"
  "fst (loop_run lc [InvokeHandleRowAction n row, Settle 0 (AddResult r), Settle 0 (Catalog a)]
          (s, []))
     = handleRowAction lc n row r a s"
proof -
  show "fst (loop_run lc [InvokeLoadProducts, Settle 0 (Catalog a)] (s, [])) = loadProducts lc a s"
    by (simp add: loadProducts_split)
  show "fst (loop_run lc [InvokeCheckActivation, Settle 0 (Activated b)] (s, []))
          = checkActivation b s"
    by (simp add: checkActivation_split checkActivation_begin_def)
  show "fst (loop_run lc [InvokeHandleToggleExternal c, Settle 0 (Catalog a)] (s, []))
          = handleToggleExternal lc c a s"
    by (simp add: handleToggleExternal_def loadProducts_split)
  show "fst (loop_run lc [InvokeHandleRowAction n row, Settle 0 (AddResult r),
               Settle 0 (Catalog a)] (s, []))
          = handleRowAction lc n row r a s"
  proof (cases "n = ''add_product''")
    case False
    then show ?thesis by (simp add: handleRowAction_def)
  next
    case True
    have "loop_step lc (InvokeHandleRowAction n row) (s, []) =
            (if isExternal row then handleAddExternalProduct_begin (Some row) s
             else handleAddProduct_begin (productId row) s)"
      using True by (simp add: split_beta)
    then show ?thesis
      using True handleAddProduct_in_segments [of lc r a "productId row" s]
        handleAddExternalProduct_in_segments [of lc r a "Some row" s]
      by (simp add: handleRowAction_def del: loop_step.simps)
  qed
qed

section \<open>The page number under the event loop\<close>

lemma showErrorToast_view:
  fixes s :: availableProducts
  shows "currentPage (showErrorToast title e s) = currentPage s"
    and "pageSize (showErrorToast title e s) = pageSize s"
    and "filteredProducts (showErrorToast title e s) = filteredProducts s"
    and "products (showErrorToast title e s) = products s"
    and "published (showErrorToast title e s) = published s"
    and "isActivated (showErrorToast title e s) = isActivated s"
  using showErrorToast_shows [of title e s]
  by (auto simp: showToast_view showToast_frame)

lemma pageKept_inRange:
  assumes "0 < pageSize s" and "pageInRange s" and "pageKept s t"
  shows "pageInRange t"
proof (cases "currentPage t = 1")
  case True
  with assms show ?thesis by (simp add: pageKept_def pageInRange_first)
next
  case False
  with assms show ?thesis by (simp add: pageKept_def pageInRange_cong [of s t])
qed

lemma loadProducts_begin_view:
  "currentPage (loadProducts_begin s) = 1"
  "pageSize (loadProducts_begin s) = pageSize s"
  "filteredProducts (loadProducts_begin s) = filteredProducts s"
  by (simp_all add: loadProducts_begin_def callApex_def)

lemma loadProducts_settle_view:
  "pageSize (loadProducts_settle lc a s) = pageSize s"
  "currentPage (loadProducts_settle lc (Resolved (Some data)) s) = 1"
  "currentPage (loadProducts_settle lc (Resolved None) s) = currentPage s"
  "currentPage (loadProducts_settle lc (Rejected e) s) = currentPage s"
  "filteredProducts (loadProducts_settle lc (Resolved None) s) = []"
  "filteredProducts (loadProducts_settle lc (Rejected e) s) = []"
proof -
  show "pageSize (loadProducts_settle lc a s) = pageSize s"
    by (cases a; cases "case a of Resolved d \<Rightarrow> d | _ \<Rightarrow> None")
      (simp_all add: loadProducts_settle_def applyFilters_view loadProducts_failed_view
        recount_def)
qed (simp_all add: loadProducts_settle_def applyFilters_view loadProducts_failed_view)

lemma loadProducts_settle_first:
  assumes "catalogFailure (Settle i (Catalog a)) \<longrightarrow> currentPage s = 1"
  shows "currentPage (loadProducts_settle lc a s) = 1"
proof (cases a)
  case (Rejected e)
  with assms show ?thesis by (simp add: loadProducts_settle_view)
next
  case (Resolved r)
  with assms show ?thesis by (cases r) (simp_all add: loadProducts_settle_view)
qed

lemma checkActivation_settle_view:
  "currentPage (checkActivation_settle a s) = currentPage s"
  "pageSize (checkActivation_settle a s) = pageSize s"
  "length (filteredProducts (checkActivation_settle a s)) = length (filteredProducts s)"
  by (cases a; simp add: checkActivation_settle_def Let_def)+

lemma checkActivation_begin_view:
  "currentPage (fst (checkActivation_begin s)) = currentPage s"
  "pageSize (fst (checkActivation_begin s)) = pageSize s"
  "filteredProducts (fst (checkActivation_begin s)) = filteredProducts s"
  by (simp_all add: checkActivation_begin_def callApex_view)

lemma handleAddProduct_begin_view:
  "currentPage (fst (handleAddProduct_begin pid s)) = currentPage s"
  "pageSize (fst (handleAddProduct_begin pid s)) = pageSize s"
  "filteredProducts (fst (handleAddProduct_begin pid s)) = filteredProducts s"
  by (simp_all add: handleAddProduct_begin_def callApex_view showToast_view)

lemma handleAddExternalProduct_begin_view:
  "currentPage (fst (handleAddExternalProduct_begin product s)) = currentPage s"
  "pageSize (fst (handleAddExternalProduct_begin product s)) = pageSize s"
  "filteredProducts (fst (handleAddExternalProduct_begin product s)) = filteredProducts s"
  by (cases product; simp add: handleAddExternalProduct_begin_def callApex_view showToast_view)+

lemma handleAddProduct_answered_kept:
  "pageKept s (fst (handleAddProduct_answered pid a s))"
proof (cases a)
  case (Rejected e)
  then show ?thesis
    by (simp add: handleAddProduct_answered_def pageKept_def showErrorToast_view)
next
  case (Resolved r)
  then show ?thesis
    by (cases r)
      (simp_all add: handleAddProduct_answered_def pageKept_def showErrorToast_view
        showToast_view loadProducts_begin_view)
qed

lemma handleAddExternalProduct_answered_kept:
  "pageKept s (fst (handleAddExternalProduct_answered row a s))"
proof (cases a)
  case (Rejected e)
  then show ?thesis
    by (simp add: handleAddExternalProduct_answered_def pageKept_def showErrorToast_view)
next
  case (Resolved r)
  then show ?thesis
    by (cases r)
      (simp_all add: handleAddExternalProduct_answered_def pageKept_def showToast_view
        loadProducts_begin_view markProductAsAdded_view)
qed

lemma handleAddProduct_reloaded_view:
  "currentPage (handleAddProduct_reloaded lc pid result a s)
     = currentPage (loadProducts_settle lc a s)"
  "pageSize (handleAddProduct_reloaded lc pid result a s) = pageSize s"
  by (simp_all add: handleAddProduct_reloaded_def Let_def setTimeout_view showToast_view
      dispatchProductAddedEvent_view markProductAsAdded_view loadProducts_settle_view)

lemma handleAddExternalProduct_reloaded_view:
  "currentPage (handleAddExternalProduct_reloaded lc row result a s)
     = currentPage (loadProducts_settle lc a s)"
  "pageSize (handleAddExternalProduct_reloaded lc row result a s) = pageSize s"
  by (simp_all add: handleAddExternalProduct_reloaded_def Let_def setTimeout_view showToast_view
      dispatchProductAddedEvent_view loadProducts_settle_view)

lemma resume_kept:
  assumes "resume lc k a s = Some (t, new)"
    and "catalogFailure (Settle i a) \<longrightarrow> currentPage s = 1"
  shows "pageKept s t"
proof (cases a)
  case (Catalog c)
  with assms(2) have first: "currentPage (loadProducts_settle lc c s) = 1"
    using loadProducts_settle_first [of i c s lc] by simp
  from assms(1) Catalog show ?thesis
    by (cases k)
      (auto simp: pageKept_def first loadProducts_settle_view handleAddProduct_reloaded_view
        handleAddExternalProduct_reloaded_view)
next
  case (AddResult r)
  show ?thesis
  proof (cases k)
    case (HandleAddProductK pid)
    with assms(1) AddResult have "fst (handleAddProduct_answered pid r s) = t" by simp
    with handleAddProduct_answered_kept [of s pid r] show ?thesis by simp
  next
    case (HandleAddExternalProductK row)
    with assms(1) AddResult have "fst (handleAddExternalProduct_answered row r s) = t" by simp
    with handleAddExternalProduct_answered_kept [of s row r] show ?thesis by simp
  qed (use assms(1) AddResult in simp_all)
next
  case (Activated b)
  with assms(1) show ?thesis
    by (cases k) (auto simp: pageKept_def checkActivation_settle_view)
qed

lemma invoke_kept:
  assumes "ev \<noteq> InvokeHandleNextPage" and "ev \<noteq> InvokeHandlePrevPage"
  shows "pageKept s (fst (invoke lc ev s))"
proof (cases ev)
  case ConnectedCallback
  then show ?thesis
    by (simp add: split_beta pageKept_def checkActivation_begin_view loadProducts_begin_view)
next
  case (InvokeHandleRowAction n row)
  then show ?thesis
    by (simp add: pageKept_def handleAddProduct_begin_view handleAddExternalProduct_begin_view)
qed (use assms in \<open>simp_all add: pageKept_def loadProducts_begin_view checkActivation_begin_view
      handleSearch_def applyFilters_view refreshCurrentRecordView_def\<close>)

lemma loop_step_inRange:
  assumes "0 < pageSize s" and "pageInRange s"
    and "catalogFailure ev \<longrightarrow> currentPage s = 1"
  shows "pageInRange (fst (loop_step lc ev (s, ks)))
         \<and> pageSize (fst (loop_step lc ev (s, ks))) = pageSize s"
proof (cases ev)
  case (Settle i a)
  show ?thesis
  proof (cases "i < length ks")
    case False
    with Settle assms show ?thesis by simp
  next
    case True
    show ?thesis
    proof (cases "resume lc (ks ! i) a s")
      case None
      with True Settle assms show ?thesis by simp
    next
      case (Some r)
      obtain t new where r: "r = (t, new)" by (cases r)
      with Some assms(3) Settle have "pageKept s t"
        using resume_kept [of lc "ks ! i" a s t new i] by simp
      with assms have "pageInRange t \<and> pageSize t = pageSize s"
        using pageKept_inRange [of s t] by (simp add: pageKept_def)
      with True Settle Some r show ?thesis by simp
    qed
  qed
next
  case InvokeHandleNextPage
  with assms show ?thesis
    by (simp add: handleNextPage_inRange) (simp add: handleNextPage_def)
next
  case InvokeHandlePrevPage
  with assms show ?thesis
    by (simp add: handlePrevPage_inRange) (simp add: handlePrevPage_def)
qed (use assms invoke_kept [of ev s lc] pageKept_inRange [of s "fst (invoke lc ev s)"]
      in \<open>simp_all add: split_beta pageKept_def\<close>)

lemma loop_run_inRange:
  assumes "0 < pageSize (fst st)" and "pageInRange (fst st)"
    and "\<forall>ev \<in> set evs. \<not> catalogFailure ev"
  shows "pageInRange (fst (loop_run lc evs st))
         \<and> pageSize (fst (loop_run lc evs st)) = pageSize (fst st)"
  using assms
proof (induction evs arbitrary: st)
  case Nil
  then show ?case by simp
next
  case (Cons ev evs)
  obtain s ks where st: "st = (s, ks)" by (cases st)
  from Cons.prems st have step: "pageInRange (fst (loop_step lc ev (s, ks)))
      \<and> pageSize (fst (loop_step lc ev (s, ks))) = pageSize s"
    by (intro loop_step_inRange) simp_all
  with Cons.prems st have "0 < pageSize (fst (loop_step lc ev st))"
    and "pageInRange (fst (loop_step lc ev st))"
    and "\<forall>ev \<in> set evs. \<not> catalogFailure ev"
    by simp_all
  from Cons.IH [OF this] step st show ?case by simp
qed

text \<open>
  C7. The specification says that every operation preserves
  \<open>1 \<le> currentPage \<le> totalPages\<close>. \<^verbatim>\<open>loadProducts\<close> sets the page to 1 before it awaits
  the catalog, and its \<^verbatim>\<open>catch\<close> branch empties \<^verbatim>\<open>filteredProducts\<close> without setting
  the page again. The session: a catalog of 25 rows is loaded (the invariant holds);
  the external toggle starts a reload; before the catalog arrives the next-page button
  is pressed; the reload is rejected. The view ends on page 2 of 1.
\<close>

theorem pagination_invariant_counterexample:
  "(let loaded = [InvokeLoadProducts,
                  Settle 0 (Catalog (Resolved
                    (Some (replicate 25 (exampleRow ''01t1'' ''KPN Mobile'' False)))))];
        before = fst (loop_run asciiLowerCase loaded (availableProducts_init (Some ''801''), []));
        after = fst (loop_run asciiLowerCase
                  (loaded @ [InvokeHandleToggleExternal False, InvokeHandleNextPage,
                             Settle 0 (Catalog (Rejected (JString ''offline'')))])
                  (availableProducts_init (Some ''801''), []))
    in pageInRange before \<and> currentPage before = 1 \<and> totalPages before = 3
       \<and> currentPage after = 2 \<and> filteredProducts after = [] \<and> totalPages after = 1
       \<and> \<not> pageInRange after)"
proof -
  define rows where "rows = replicate 25 (exampleRow ''01t1'' ''KPN Mobile'' False)"
  define before where "before = loadProducts asciiLowerCase (Resolved (Some rows))
                                  (availableProducts_init (Some ''801''))"
  have len: "length rows = 25" by (simp add: rows_def)
  have b: "currentPage before = 1" "pageSize before = 10"
    "length (filteredProducts before) = 25"
    by (simp_all add: before_def loadProducts_view loadProducts_def Let_def applyFilters_def
        recount_def callApex_def transformProductData_def availableProducts_init_def len)
  then have tp: "totalPages before = 3" by (simp add: totalPages_def)
  define mid where "mid = loadProducts_begin (before\<lparr>includeExternal := False\<rparr>)"
  have m: "currentPage mid = 1" "pageSize mid = 10" "length (filteredProducts mid) = 25"
    using b by (simp_all add: mid_def loadProducts_begin_def callApex_def)
  then have "totalPages mid = 3" by (simp add: totalPages_def)
  with m have next_page: "handleNextPage mid = mid\<lparr>currentPage := 2\<rparr>"
    by (simp add: handleNextPage_def isLastPage_def)
  define after where
    "after = loadProducts_settle asciiLowerCase (Rejected (JString ''offline''))
               (mid\<lparr>currentPage := 2\<rparr>)"
  have a: "currentPage after = 2" "filteredProducts after = []"
    by (simp_all add: after_def loadProducts_settle_view)
  then have ta: "totalPages after = 1" by (simp add: totalPages_def)
  have run1: "loop_run asciiLowerCase
                [InvokeLoadProducts, Settle 0 (Catalog (Resolved (Some rows)))]
                (availableProducts_init (Some ''801''), []) = (before, [])"
    by (simp add: before_def loadProducts_split)
  have run2: "loop_run asciiLowerCase
                [InvokeHandleToggleExternal False, InvokeHandleNextPage,
                 Settle 0 (Catalog (Rejected (JString ''offline'')))] (before, [])
              = (after, [])"
    by (simp add: mid_def [symmetric] next_page after_def)
  have run3: "loop_run lc (xs @ ys) st = loop_run lc ys (loop_run lc xs st)" for lc xs ys st
    by (induction xs arbitrary: st) simp_all
  show ?thesis
    unfolding Let_def rows_def [symmetric] run3 run1 run2
    using b tp a ta by (simp add: pageInRange_def)
qed

text \<open>
  C7, as amended. With the page size positive (the source's is 10 throughout):
  every handler of the Product List View that runs from its first statement to its
  last with no other handler in between preserves \<open>1 \<le> currentPage \<le> totalPages\<close>,
  and so does every sequence of such runs from the initial state. When handlers
  interleave at their awaits, every step of the event loop preserves it except the
  settling of a catalog load that fails (rejected, or \<^verbatim>\<open>null\<close>) while the page is not
  1: a failed load leaves the page where it is and empties \<^verbatim>\<open>filteredProducts\<close>. So
  the invariant holds in every state that the event loop reaches from the initial one
  without a failed catalog load. \<^verbatim>\<open>handleNextPage\<close> does nothing when
  \<open>currentPage \<ge> totalPages\<close>, \<^verbatim>\<open>handlePrevPage\<close> does nothing when \<open>currentPage = 1\<close>,
  \<^verbatim>\<open>loadProducts\<close> sets \<^verbatim>\<open>currentPage\<close> to 1 (already before its await) and so does
  \<^verbatim>\<open>applyFilters\<close>. With 25 filtered rows and page size 10: page 1 shows the first ten
  rows and is not the last page; two steps forward, page 3 shows the rows after the
  twentieth and is the last page; one more \<^verbatim>\<open>handleNextPage\<close> changes nothing.
\<close>

theorem pagination_invariant:
  "(0 < pageSize s \<and> pageInRange s \<longrightarrow>
      pageInRange (product_step lc x s) \<and> pageSize (product_step lc x s) = pageSize s)
   \<and> pageInRange (product_run lc xs (availableProducts_init rid))
   \<and> (0 < pageSize s \<and> pageInRange s \<and> (catalogFailure ev \<longrightarrow> currentPage s = 1) \<longrightarrow>
        pageInRange (fst (loop_step lc ev (s, ks)))
        \<and> pageSize (fst (loop_step lc ev (s, ks))) = pageSize s)
   \<and> ((\<forall>ev \<in> set evs. \<not> catalogFailure ev) \<longrightarrow>
        pageInRange (fst (loop_run lc evs (availableProducts_init rid, []))))
   \<and> currentPage (loadProducts_settle lc (Rejected e) s) = currentPage s
   \<and> filteredProducts (loadProducts_settle lc (Rejected e) s) = []
   \<and> currentPage (loadProducts_settle lc (Resolved None) s) = currentPage s
   \<and> filteredProducts (loadProducts_settle lc (Resolved None) s) = []
   \<and> (currentPage s \<ge> totalPages s \<longrightarrow> handleNextPage s = s)
   \<and> (currentPage s = 1 \<longrightarrow> handlePrevPage s = s)
   \<and> currentPage (loadProducts lc answer s) = 1
   \<and> currentPage (loadProducts_begin s) = 1
   \<and> currentPage (applyFilters lc s) = 1
   \<and> (length (filteredProducts s) = 25 \<and> pageSize s = 10 \<and> currentPage s = 1 \<longrightarrow>
        pagedProducts s = take 10 (filteredProducts s)
        \<and> \<not> isLastPage s
        \<and> currentPage (handleNextPage (handleNextPage s)) = 3
        \<and> pagedProducts (handleNextPage (handleNextPage s)) = drop 20 (filteredProducts s)
        \<and> isLastPage (handleNextPage (handleNextPage s))
        \<and> handleNextPage (handleNextPage (handleNextPage s))
            = handleNextPage (handleNextPage s))"
proof -
  have init: "0 < pageSize (availableProducts_init rid)"
    "pageInRange (availableProducts_init rid)"
    by (simp_all add: availableProducts_init_def pageInRange_def totalPages_def)
  have 1: "0 < pageSize s \<and> pageInRange s \<longrightarrow>
      pageInRange (product_step lc x s) \<and> pageSize (product_step lc x s) = pageSize s"
    by (simp add: product_step_inRange product_step_pageSize)
  have 2: "pageInRange (product_run lc xs (availableProducts_init rid))"
    using product_run_inRange [OF init] by simp
  have 3: "0 < pageSize s \<and> pageInRange s \<and> (catalogFailure ev \<longrightarrow> currentPage s = 1) \<longrightarrow>
        pageInRange (fst (loop_step lc ev (s, ks)))
        \<and> pageSize (fst (loop_step lc ev (s, ks))) = pageSize s"
    using loop_step_inRange [of s ev lc ks] by blast
  have 4: "(\<forall>ev \<in> set evs. \<not> catalogFailure ev) \<longrightarrow>
        pageInRange (fst (loop_run lc evs (availableProducts_init rid, [])))"
    using loop_run_inRange [of "(availableProducts_init rid, [])" evs lc] init by simp
  have 5: "currentPage (loadProducts_settle lc (Rejected e) s) = currentPage s
      \<and> filteredProducts (loadProducts_settle lc (Rejected e) s) = []
      \<and> currentPage (loadProducts_settle lc (Resolved None) s) = currentPage s
      \<and> filteredProducts (loadProducts_settle lc (Resolved None) s) = []"
    by (simp add: loadProducts_settle_view)
  have 6: "currentPage s \<ge> totalPages s \<longrightarrow> handleNextPage s = s"
    by (simp add: handleNextPage_def isLastPage_def)
  have 7: "currentPage s = 1 \<longrightarrow> handlePrevPage s = s"
    by (simp add: handlePrevPage_def isFirstPage_def)
  have 8: "currentPage (loadProducts lc answer s) = 1 \<and> currentPage (loadProducts_begin s) = 1
      \<and> currentPage (applyFilters lc s) = 1"
    by (simp add: loadProducts_view loadProducts_begin_view applyFilters_view)
  have 9: "length (filteredProducts s) = 25 \<and> pageSize s = 10 \<and> currentPage s = 1 \<longrightarrow>
        pagedProducts s = take 10 (filteredProducts s)
        \<and> \<not> isLastPage s
        \<and> currentPage (handleNextPage (handleNextPage s)) = 3
        \<and> pagedProducts (handleNextPage (handleNextPage s)) = drop 20 (filteredProducts s)
        \<and> isLastPage (handleNextPage (handleNextPage s))
        \<and> handleNextPage (handleNextPage (handleNextPage s))
            = handleNextPage (handleNextPage s)"
    using scenario_25_rows [of s] by blast
  from 1 2 3 4 5 6 7 8 9 show ?thesis by blast
qed

theorem pagination_invariant_witness:
  "0 < pageSize (availableProducts_init (Some ''801''))
   \<and> pageInRange (availableProducts_init (Some ''801''))
   \<and> pageInRange (product_step asciiLowerCase HandlePrevPage (availableProducts_init (Some ''801'')))
   \<and> \<not> catalogFailure InvokeHandleNextPage
   \<and> pageInRange (fst (loop_step asciiLowerCase InvokeHandleNextPage
        (availableProducts_init (Some ''801''), [])))
   \<and> catalogFailure (Settle 0 (Catalog (Rejected JNull)))
   \<and> currentPage (availableProducts_init (Some ''801'')) = 1
   \<and> pageInRange (fst (loop_step asciiLowerCase (Settle 0 (Catalog (Rejected JNull)))
        (loadProducts_begin (availableProducts_init (Some ''801'')), [LoadProductsK])))
   \<and> pageInRange (fst (loop_run asciiLowerCase
        [InvokeLoadProducts, InvokeHandleNextPage, Settle 0 (Catalog (Resolved (Some [])))]
        (availableProducts_init (Some ''801''), [])))
   \<and> totalPages (availableProducts_init (Some ''801''))
       \<le> currentPage (availableProducts_init (Some ''801''))
   \<and> handleNextPage (availableProducts_init (Some ''801'')) = availableProducts_init (Some ''801'')
   \<and> handlePrevPage (availableProducts_init (Some ''801'')) = availableProducts_init (Some ''801'')
   \<and> length (filteredProducts ((availableProducts_init (Some ''801''))
        \<lparr>filteredProducts := replicate 25 (exampleRow ''01t1'' ''KPN Mobile'' False)\<rparr>)) = 25
   \<and> pagedProducts ((availableProducts_init (Some ''801''))
        \<lparr>filteredProducts := replicate 25 (exampleRow ''01t1'' ''KPN Mobile'' False)\<rparr>)
       = replicate 10 (exampleRow ''01t1'' ''KPN Mobile'' False)
   \<and> pagedProducts (handleNextPage (handleNextPage ((availableProducts_init (Some ''801''))
        \<lparr>filteredProducts := replicate 25 (exampleRow ''01t1'' ''KPN Mobile'' False)\<rparr>)))
       = replicate 5 (exampleRow ''01t1'' ''KPN Mobile'' False)
   \<and> isLastPage (handleNextPage (handleNextPage ((availableProducts_init (Some ''801''))
        \<lparr>filteredProducts := replicate 25 (exampleRow ''01t1'' ''KPN Mobile'' False)\<rparr>)))"
proof -
  define s0 where "s0 = availableProducts_init (Some ''801'')"
  define s where "s = s0\<lparr>filteredProducts := replicate 25 (exampleRow ''01t1'' ''KPN Mobile'' False)\<rparr>"
  define s1 where "s1 = loadProducts_begin s0"
  have a: "0 < pageSize s0" "currentPage s0 = 1" "totalPages s0 = 1"
    by (simp_all add: s0_def availableProducts_init_def totalPages_def)
  then have b: "pageInRange s0" by (simp add: pageInRange_def)
  have a1: "0 < pageSize s1" "currentPage s1 = 1" "totalPages s1 = 1"
    using a by (simp_all add: s1_def loadProducts_begin_def callApex_def totalPages_def
        s0_def availableProducts_init_def)
  then have b1: "pageInRange s1" by (simp add: pageInRange_def)
  have c: "length (filteredProducts s) = 25 \<and> pageSize s = 10 \<and> currentPage s = 1"
    by (simp add: s_def s0_def availableProducts_init_def)
  have d: "\<forall>ev \<in> set [InvokeLoadProducts, InvokeHandleNextPage,
                       Settle 0 (Catalog (Resolved (Some [])))]. \<not> catalogFailure ev"
    by simp
  from pagination_invariant
         [of s0 asciiLowerCase HandlePrevPage "[]" "Some ''801''" InvokeHandleNextPage "[]"
             "[InvokeLoadProducts, InvokeHandleNextPage, Settle 0 (Catalog (Resolved (Some [])))]"]
    a b d
  have "pageInRange (product_step asciiLowerCase HandlePrevPage s0)"
    and "pageInRange (fst (loop_step asciiLowerCase InvokeHandleNextPage (s0, [])))"
    and "pageInRange (fst (loop_run asciiLowerCase
           [InvokeLoadProducts, InvokeHandleNextPage, Settle 0 (Catalog (Resolved (Some [])))]
           (s0, [])))"
    and "handleNextPage s0 = s0" and "handlePrevPage s0 = s0"
    unfolding s0_def by simp_all
  moreover from pagination_invariant
         [of s1 asciiLowerCase HandlePrevPage "[]" None "Settle 0 (Catalog (Rejected JNull))"
             "[LoadProductsK]" "[]"]
    a1 b1
  have "pageInRange (fst (loop_step asciiLowerCase (Settle 0 (Catalog (Rejected JNull)))
          (s1, [LoadProductsK])))"
    by simp
  moreover from pagination_invariant [of s asciiLowerCase HandlePrevPage "[]" None] c
  have "pagedProducts s = take 10 (filteredProducts s)"
    and "pagedProducts (handleNextPage (handleNextPage s)) = drop 20 (filteredProducts s)"
    and "isLastPage (handleNextPage (handleNextPage s))"
    by simp_all
  ultimately show ?thesis
    using a b c unfolding s_def [symmetric] s0_def [symmetric] s1_def [symmetric]
    by (simp add: s_def)
qed

section \<open>Adding a product: the success paths\<close>

lemma markRow_marked:
  assumes "q \<in> set (map (markRow pid) rows)" and "productId q = pid"
  shows "isAddedToOrder q \<and> statusLabel q = Some addedLabel \<and> disableAdd q"
proof -
  from assms obtain p where "p \<in> set rows" and q: "q = markRow pid p" by auto
  with assms(2) show ?thesis
    by (cases "productId p = pid") (simp_all add: markRow_def)
qed

text \<open>
  The local path reloads first and marks afterwards: when \<^verbatim>\<open>handleAddProduct\<close>
  succeeds, every row with the product's id, in \<^verbatim>\<open>products\<close> and in
  \<^verbatim>\<open>filteredProducts\<close>, is marked as added, and the event is published.
\<close>

lemma handleAddProduct_marks:
  assumes "truthy pid" and "truthy (recordId s)" and "res_success result"
  shows "\<forall>q \<in> set (products (handleAddProduct toLowerCase pid (Resolved (Some result)) reload s))
              \<union> set (filteredProducts (handleAddProduct toLowerCase pid (Resolved (Some result)) reload s)).
           productId q = pid \<longrightarrow>
             isAddedToOrder q \<and> statusLabel q = Some addedLabel \<and> disableAdd q"
    and "published (handleAddProduct toLowerCase pid (Resolved (Some result)) reload s) =
           published s @ [\<lparr>msg_productId = pid, msg_orderItemId = res_recordId result,
                            msg_orderId = recordId s\<rparr>]"
proof -
  let ?h = "handleAddProduct toLowerCase pid (Resolved (Some result)) reload s"
  let ?l = "loadProducts toLowerCase reload
              (callApex (AddProductToOrder (recordId s) pid) (s\<lparr>isLoading := True\<rparr>))"
  from assms have p: "products ?h = map (markRow pid) (products ?l)"
    and f: "filteredProducts ?h = map (markRow pid) (filteredProducts ?l)"
    by (simp_all add: handleAddProduct_success setTimeout_view showToast_view
        dispatchProductAddedEvent_view markProductAsAdded_view)
  show "\<forall>q \<in> set (products ?h) \<union> set (filteredProducts ?h).
           productId q = pid \<longrightarrow>
             isAddedToOrder q \<and> statusLabel q = Some addedLabel \<and> disableAdd q"
  proof (intro ballI impI)
    fix q
    assume "q \<in> set (products ?h) \<union> set (filteredProducts ?h)" and "productId q = pid"
    then show "isAddedToOrder q \<and> statusLabel q = Some addedLabel \<and> disableAdd q"
      unfolding p f using markRow_marked [of q pid] by blast
  qed
  from assms show "published ?h =
           published s @ [\<lparr>msg_productId = pid, msg_orderItemId = res_recordId result,
                            msg_orderId = recordId s\<rparr>]"
    by (simp add: handleAddProduct_success setTimeout_view showToast_view
        dispatchProductAddedEvent_view markProductAsAdded_view loadProducts_view
        callApex_view callApex_frame)
qed

lemma loadProducts_products:
  "products (loadProducts toLowerCase (Resolved (Some data)) s) =
     map (\<lambda>product. product
            \<lparr>sourceIcon := Some (if isExternal product then ''utility:world''
                                 else ''utility:salesforce1''),
             sourceBadgeClass := Some (if isExternal product then ''slds-badge slds-theme_warning''
                                       else ''slds-badge slds-theme_success''),
             disableAdd := isActivated s\<rparr>) data"
  by (simp add: loadProducts_def Let_def applyFilters_view recount_def
      transformProductData_def callApex_def)

lemma loadProducts_filtered_subset:
  "set (filteredProducts (loadProducts toLowerCase answer s)) \<subseteq> set (products (loadProducts toLowerCase answer s))"
proof (cases answer)
  case (Rejected e)
  then show ?thesis by (simp add: loadProducts_def Let_def loadProducts_failed_view)
next
  case (Resolved r)
  show ?thesis
  proof (cases r)
    case None
    with Resolved show ?thesis by (simp add: loadProducts_def Let_def loadProducts_failed_view)
  next
    case (Some data)
    with Resolved show ?thesis
      using applyFilters_subset by (simp add: loadProducts_def Let_def applyFilters_view)
  qed
qed

lemma loadProducts_disableAdd:
  assumes "q \<in> set (products (loadProducts toLowerCase answer s)) \<union> set (filteredProducts (loadProducts toLowerCase answer s))"
  shows "disableAdd q = isActivated s"
proof -
  from assms loadProducts_filtered_subset [of toLowerCase answer s]
  have q: "q \<in> set (products (loadProducts toLowerCase answer s))" by auto
  show ?thesis
  proof (cases answer)
    case (Rejected e)
    with q show ?thesis
      by (simp add: loadProducts_def Let_def loadProducts_failed_view)
  next
    case (Resolved r)
    show ?thesis
    proof (cases r)
      case None
      with Resolved q show ?thesis
        by (simp add: loadProducts_def Let_def loadProducts_failed_view)
    next
      case (Some data)
      with Resolved q show ?thesis
        by (auto simp: loadProducts_products)
    qed
  qed
qed

text \<open>
  The external path marks first and reloads afterwards, and the reload replaces every
  row: when \<^verbatim>\<open>handleAddExternalProduct\<close> succeeds on an order that is not activated, no
  row is left with \<^verbatim>\<open>disableAdd\<close> true, whatever the server sends.
\<close>

lemma handleAddExternalProduct_unmarks:
  assumes "truthy (recordId s)" and "res_success result" and "\<not> isActivated s"
    and "q \<in> set (products (handleAddExternalProduct toLowerCase (Some row) (Resolved (Some result)) reload s))
           \<union> set (filteredProducts
                 (handleAddExternalProduct toLowerCase (Some row) (Resolved (Some result)) reload s))"
  shows "\<not> disableAdd q"
proof -
  let ?m = "markProductAsAdded (js_or (productId row) (productCode row))
              (callApex (AddExternalProductToOrder (recordId s) row) (s\<lparr>isLoading := True\<rparr>))"
  from assms have "q \<in> set (products (loadProducts toLowerCase reload ?m))
                     \<union> set (filteredProducts (loadProducts toLowerCase reload ?m))"
    by (simp add: handleAddExternalProduct_success setTimeout_view showToast_view
        dispatchProductAddedEvent_view)
  from loadProducts_disableAdd [OF this] assms(3) show ?thesis
    by (simp add: markProductAsAdded_view callApex_frame)
qed

text \<open>
  C2. After a successful add the row is to end marked as added (\<^verbatim>\<open>isAddedToOrder\<close>
  true, the added label, \<^verbatim>\<open>disableAdd\<close> true) in \<^verbatim>\<open>products\<close> and in
  \<^verbatim>\<open>filteredProducts\<close>, with the event published. This holds on the local path
  (\<open>handleAddProduct_marks\<close>) and fails on the external one. The session: the catalog
  of order 801 is loaded with one external row \<^verbatim>\<open>EXT-1\<close>; the row shown in the table
  is added with success; the reload returns the catalog as before. The row ends as it
  was shown before the add, unmarked and with \<^verbatim>\<open>disableAdd\<close> false, in both
  collections. When the reload returns the row already marked by the server,
  \<^verbatim>\<open>disableAdd\<close> is false all the same. The event is published.
\<close>

theorem handleAddExternalProduct_loses_mark:
  "(let row = exampleRow ''EXT-1'' ''Fiber'' True;
        shown = row\<lparr>sourceIcon := Some ''utility:world'',
                    sourceBadgeClass := Some ''slds-badge slds-theme_warning''\<rparr>;
        added = Resolved (Some \<lparr>res_success = True, res_message = Some ''Added'',
                                 res_recordId = Some ''802''\<rparr>);
        before = product_run toLowerCase [LoadProducts (Resolved (Some [row]))]
                   (availableProducts_init (Some ''801''));
        after = product_run toLowerCase
                   [LoadProducts (Resolved (Some [row])),
                    HandleRowAction ''add_product'' shown added (Resolved (Some [row]))]
                   (availableProducts_init (Some ''801''));
        after_marked = product_run toLowerCase
                   [LoadProducts (Resolved (Some [row])),
                    HandleRowAction ''add_product'' shown added
                      (Resolved (Some [row\<lparr>isAddedToOrder := True,
                                          statusLabel := Some addedLabel,
                                          disableAdd := True\<rparr>]))]
                   (availableProducts_init (Some ''801''))
    in products before = [shown] \<and> filteredProducts before = [shown]
       \<and> products after = [shown] \<and> filteredProducts after = [shown]
       \<and> map disableAdd (products after) = [False]
       \<and> map isAddedToOrder (products after) = [False]
       \<and> map statusLabel (products after) = [None]
       \<and> map disableAdd (products after_marked) = [False]
       \<and> map disableAdd (filteredProducts after_marked) = [False]
       \<and> published after
           = [\<lparr>msg_productId = Some ''EXT-1'', msg_orderItemId = Some ''802'',
               msg_orderId = Some ''801''\<rparr>])"
proof -
  define s where "s = loadProducts toLowerCase (Resolved (Some [exampleRow ''EXT-1'' ''Fiber'' True]))
                        (availableProducts_init (Some ''801''))"
  have load: "products (loadProducts toLowerCase (Resolved (Some data)) t)
                = transformProductData t data
              \<and> filteredProducts (loadProducts toLowerCase (Resolved (Some data)) t)
                = transformProductData t data"
    if "searchTerm t = []" for t data
    using that
    by (simp add: loadProducts_def Let_def applyFilters_def recount_def callApex_def
        transformProductData_def)
  have st0: "searchTerm (availableProducts_init (Some ''801'')) = []"
    by (simp add: availableProducts_init_def)
  have s: "truthy (recordId s)" "recordId s = Some ''801''" "\<not> isActivated s"
    "published s = []" "searchTerm s = []"
    by (simp_all add: s_def loadProducts_view loadProducts_def Let_def applyFilters_def
        recount_def callApex_def availableProducts_init_def truthy_def)
  have st: "searchTerm (markProductAsAdded pid (callApex c (s\<lparr>isLoading := True\<rparr>))) = []"
    and act: "\<not> isActivated (markProductAsAdded pid (callApex c (s\<lparr>isLoading := True\<rparr>)))"
    for pid c
    using s by (simp_all add: markProductAsAdded_def recount_def callApex_def)
  have before: "products s = transformProductData (availableProducts_init (Some ''801''))
                  [exampleRow ''EXT-1'' ''Fiber'' True]"
    "filteredProducts s = transformProductData (availableProducts_init (Some ''801''))
                  [exampleRow ''EXT-1'' ''Fiber'' True]"
    using load [OF st0] by (simp_all add: s_def)
  have init: "\<not> isActivated (availableProducts_init (Some ''801''))"
    by (simp add: availableProducts_init_def)
  show ?thesis
    unfolding Let_def product_run.simps product_step.simps s_def [symmetric]
    using s act init
    by (simp add: handleRowAction_def handleAddExternalProduct_success setTimeout_view
        showToast_view dispatchProductAddedEvent_view load [OF st] before
        transformProductData_def exampleRow_def loadProducts_view markProductAsAdded_view
        callApex_view callApex_frame js_or_def truthy_def)
qed

section \<open>The activation flag over a session\<close>

lemma wiredOrderItems_isActivated: "isActivated (wiredOrderItems r s) = isActivated s"
  by (cases "wire_data r")
    (simp_all add: wiredOrderItems_def Let_def showToast_def split: sum.split)

lemma checkOrderActivationStatus_isActivated:
  "isActivated (checkOrderActivationStatus answer s) =
     (case answer of
        Resolved activated \<Rightarrow> if truthy (recordId s) then activated else isActivated s
      | Rejected e \<Rightarrow> isActivated s)"
  by (cases answer) (simp_all add: checkOrderActivationStatus_def Let_def callApex_def)

lemma checkActivation_isActivated:
  "isActivated (checkActivation answer s) =
     (case answer of
        Resolved activated \<Rightarrow> if truthy (recordId s) then activated else isActivated s
      | Rejected e \<Rightarrow> isActivated s)"
  by (cases answer) (simp_all add: checkActivation_def Let_def callApex_def)

lemma refreshOrderProducts_settle_isActivated:
  "isActivated (refreshOrderProducts_settle settled s) = isActivated s"
proof (cases settled)
  case (Rejected e)
  then show ?thesis by (simp add: refreshOrderProducts_settle_def)
next
  case (Resolved d)
  then show ?thesis
    by (cases d) (simp_all add: refreshOrderProducts_settle_def Let_def wiredOrderItems_isActivated)
qed

lemma refreshOrderProducts_isActivated:
  "isActivated (refreshOrderProducts settled s) = isActivated s"
  by (simp add: refreshOrderProducts_def refreshOrderProducts_settle_isActivated
      refreshOrderProducts_begin_def callApex_def)

lemma handleActivateOrder_keeps:
  assumes "isActivated s"
  shows "isActivated (handleActivateOrder answer s)"
  using assms by (simp add: handleActivateOrder_def showToast_def)

lemma handleRowAction_order_keeps:
  assumes "isActivated s"
  shows "isActivated (handleRowAction_order n row answer settled s)"
  using assms by (simp add: handleRowAction_order_def showToast_def)

lemma order_step_keeps:
  assumes "isActivated s" and "\<not> order_denies x"
  shows "isActivated (order_step x s)"
proof (cases x)
  case (CheckOrderActivationStatus a)
  with assms show ?thesis
    by (cases a) (simp_all add: checkOrderActivationStatus_isActivated)
next
  case SubscribeToMessageChannel
  with assms show ?thesis by (simp add: subscribeToMessageChannel_def)
next
  case DisconnectedCallback
  with assms show ?thesis by (simp add: disconnectedCallback_def)
next
  case (WiredOrderItems r)
  with assms show ?thesis by (simp add: wiredOrderItems_isActivated)
next
  case (HandleProductAddedMessage m)
  with assms show ?thesis
    by (cases m) (simp_all add: handleProductAddedMessage_def setTimeout_def)
next
  case (RefreshOrderProductsOp d)
  with assms show ?thesis by (simp add: refreshOrderProducts_isActivated)
next
  case RefreshCurrentRecordViewOp
  with assms show ?thesis by (simp add: refreshCurrentRecordView_def)
next
  case (HandleActivateOrder a)
  with assms show ?thesis by (simp add: handleActivateOrder_keeps)
next
  case (HandleRowActionOrder n row a d)
  with assms show ?thesis by (simp add: handleRowAction_order_keeps)
qed

lemma handleAddProduct_isActivated:
  "isActivated (handleAddProduct toLowerCase pid answer reload s) = isActivated s"
  using handleAddProduct_split [of pid s answer]
proof
  assume "\<exists>result. truthy pid \<and> truthy (recordId s) \<and> answer = Resolved (Some result)
            \<and> res_success result"
  then obtain result where "truthy pid" "truthy (recordId s)"
    "answer = Resolved (Some result)" "res_success result" by auto
  then show ?thesis
    by (simp add: handleAddProduct_success setTimeout_frame showToast_frame
        dispatchProductAddedEvent_view markProductAsAdded_view loadProducts_view
        callApex_frame)
next
  assume "\<not> truthy pid \<or> \<not> truthy (recordId s) \<or> addFailed answer"
  then show ?thesis by (rule handleAddProduct_otherwise)
qed

lemma handleAddExternalProduct_isActivated:
  "isActivated (handleAddExternalProduct toLowerCase product answer reload s) = isActivated s"
  using handleAddExternalProduct_split [of product s answer]
proof
  assume "\<exists>row result. product = Some row \<and> truthy (recordId s)
            \<and> answer = Resolved (Some result) \<and> res_success result"
  then obtain row result where "product = Some row" "truthy (recordId s)"
    "answer = Resolved (Some result)" "res_success result" by auto
  then show ?thesis
    by (simp add: handleAddExternalProduct_success setTimeout_frame showToast_frame
        dispatchProductAddedEvent_view markProductAsAdded_view loadProducts_view
        callApex_frame)
next
  assume "product = None \<or> \<not> truthy (recordId s) \<or> addFailed answer"
  then show ?thesis by (rule handleAddExternalProduct_otherwise)
qed

lemma product_step_keeps:
  assumes "isActivated s" and "\<not> product_denies x"
  shows "isActivated (product_step lc x s)"
proof (cases x)
  case (CheckActivation a)
  with assms show ?thesis by (cases a) (simp_all add: checkActivation_isActivated)
next
  case (HandleRowAction n row a r)
  with assms show ?thesis
    by (simp add: handleRowAction_def handleAddProduct_isActivated
        handleAddExternalProduct_isActivated)
qed (use assms in \<open>simp_all add: loadProducts_view handleSearch_def applyFilters_view
      handleToggleExternal_def handleAddProduct_isActivated
      handleAddExternalProduct_isActivated handleNextPage_def handlePrevPage_def
      refreshCurrentRecordView_def\<close>)

lemma order_run_keeps:
  assumes "isActivated s" and "\<forall>x \<in> set xs. \<not> order_denies x"
  shows "isActivated (order_run xs s)"
  using assms by (induction xs arbitrary: s) (simp_all add: order_step_keeps)

lemma product_run_keeps:
  assumes "isActivated s" and "\<forall>x \<in> set xs. \<not> product_denies x"
  shows "isActivated (product_run lc xs s)"
  using assms by (induction xs arbitrary: s) (simp_all add: product_step_keeps)

text \<open>
  C1. The specification says that no sequence of operations turns \<^verbatim>\<open>isActivated\<close> from true
  to false. A status check assigns what \<^verbatim>\<open>isOrderActivated\<close> answers, whatever the
  flag was. In the Order Line View: rows arrive, the order is activated with success
  (the flag is true), then a status check is answered false (the flag is false). In
  the Product List View: a check answered true, then a check answered false.
\<close>

theorem activation_monotonic_counterexample:
  "isActivated (order_run
      [WiredOrderItems \<lparr>wire_data = Some [\<lparr>orderItemId = Some ''802'',
           item_productName = Some ''Fiber'', item_productCode = Some ''F1'', unitPrice = 10,
           quantity = 1, totalPrice = 10, removeDisabled = False\<rparr>], wire_error = JUndefined\<rparr>,
       HandleActivateOrder (Resolved (Some \<lparr>res_success = True, res_message = Some ''Activated'',
           res_recordId = None\<rparr>))]
      (orderProducts_init (Some ''801'')))
   \<and> \<not> isActivated (order_run
      [WiredOrderItems \<lparr>wire_data = Some [\<lparr>orderItemId = Some ''802'',
           item_productName = Some ''Fiber'', item_productCode = Some ''F1'', unitPrice = 10,
           quantity = 1, totalPrice = 10, removeDisabled = False\<rparr>], wire_error = JUndefined\<rparr>,
       HandleActivateOrder (Resolved (Some \<lparr>res_success = True, res_message = Some ''Activated'',
           res_recordId = None\<rparr>)),
       CheckOrderActivationStatus (Resolved False)]
      (orderProducts_init (Some ''801'')))
   \<and> isActivated (product_run asciiLowerCase [CheckActivation (Resolved True)]
        (availableProducts_init (Some ''801'')))
   \<and> \<not> isActivated (product_run asciiLowerCase [CheckActivation (Resolved True), CheckActivation (Resolved False)]
        (availableProducts_init (Some ''801'')))"
proof -
  have rid: "truthy (recordId (orderProducts_init (Some ''801'')))"
    "\<not> isActivated (orderProducts_init (Some ''801''))"
    "truthy (recordId (availableProducts_init (Some ''801'')))"
    by (simp_all add: orderProducts_init_def availableProducts_init_def truthy_def)
  have w: "recordId (wiredOrderItems r s) = recordId s"
    "hasOrderItems (wiredOrderItems \<lparr>wire_data = Some [item], wire_error = e\<rparr> s)" for r s item e
    by (cases "wire_data r";
        simp add: wiredOrderItems_def Let_def showToast_def hasOrderItems_def decorateRows_def
          split: sum.split)+
  have act: "isActivated (handleActivateOrder
               (Resolved (Some \<lparr>res_success = True, res_message = m, res_recordId = None\<rparr>)) s)"
    "recordId (handleActivateOrder a s) = recordId s"
    if "truthy (recordId s)" and "hasOrderItems s" for s m a
    using that
    by (simp_all add: handleActivateOrder_def Let_def showToast_frame showErrorToast_frame
        callApex_frame refreshPage_def split: apex.split option.split)
  have chk: "recordId (checkActivation a t) = recordId t" for a t
    by (cases a) (simp_all add: checkActivation_def Let_def callApex_def)
  show ?thesis
    using rid
    by (simp add: w act wiredOrderItems_isActivated checkOrderActivationStatus_isActivated
        checkActivation_isActivated chk)
qed

text \<open>
  C1, as amended. In either view no operation but the status check ever sets
  \<^verbatim>\<open>isActivated\<close> to false: \<^verbatim>\<open>handleActivateOrder\<close> can only set it to true, and loads,
  adds, removes, searches, paging and messages leave it as it is. The status check
  (\<^verbatim>\<open>checkOrderActivationStatus\<close>, \<^verbatim>\<open>checkActivation\<close>) with an order id assigns the
  server's answer. So once the flag is true it stays true along every sequence of
  operations in which no status check is answered false.
\<close>

theorem activation_monotonic:
  "(isActivated s \<and> (\<forall>x \<in> set xs. \<not> order_denies x) \<longrightarrow> isActivated (order_run xs s))
   \<and> (isActivated t \<and> (\<forall>y \<in> set ys. \<not> product_denies y) \<longrightarrow> isActivated (product_run lc ys t))
   \<and> isActivated (checkOrderActivationStatus (Resolved b) s)
       = (if truthy (recordId s) then b else isActivated s)
   \<and> isActivated (checkActivation (Resolved b) t)
       = (if truthy (recordId t) then b else isActivated t)"
  by (simp add: order_run_keeps product_run_keeps checkOrderActivationStatus_isActivated
      checkActivation_isActivated)

theorem activation_monotonic_witness:
  "isActivated ((orderProducts_init (Some ''801''))\<lparr>isActivated := True\<rparr>)
   \<and> isActivated (order_run
        [CheckOrderActivationStatus (Resolved True),
         HandleActivateOrder (Resolved None),
         CheckOrderActivationStatus (Rejected JNull),
         HandleProductAddedMessage None]
        ((orderProducts_init (Some ''801''))\<lparr>isActivated := True\<rparr>))
   \<and> isActivated ((availableProducts_init (Some ''801''))\<lparr>isActivated := True\<rparr>)
   \<and> isActivated (product_run asciiLowerCase
        [CheckActivation (Resolved True), HandleSearch ''kpn'', LoadProducts (Resolved None),
         HandleNextPage]
        ((availableProducts_init (Some ''801''))\<lparr>isActivated := True\<rparr>))"
proof -
  have a: "isActivated ((orderProducts_init (Some ''801''))\<lparr>isActivated := True\<rparr>)"
    and b: "isActivated ((availableProducts_init (Some ''801''))\<lparr>isActivated := True\<rparr>)"
    by simp_all
  have c: "\<forall>x \<in> set [CheckOrderActivationStatus (Resolved True),
         HandleActivateOrder (Resolved None),
         CheckOrderActivationStatus (Rejected JNull),
         HandleProductAddedMessage None]. \<not> order_denies x"
    and d: "\<forall>y \<in> set [CheckActivation (Resolved True), HandleSearch ''kpn'',
         LoadProducts (Resolved None), HandleNextPage]. \<not> product_denies y"
    by simp_all
  from activation_monotonic
         [of "(orderProducts_init (Some ''801''))\<lparr>isActivated := True\<rparr>"
             "[CheckOrderActivationStatus (Resolved True),
               HandleActivateOrder (Resolved None),
               CheckOrderActivationStatus (Rejected JNull),
               HandleProductAddedMessage None]"
             "(availableProducts_init (Some ''801''))\<lparr>isActivated := True\<rparr>"
             "[CheckActivation (Resolved True), HandleSearch ''kpn'',
               LoadProducts (Resolved None), HandleNextPage]"]
    a b c d
  show ?thesis by blast
qed



end
